theory Spec2Isabelle
  imports Complex_Main "HOL-Library.AList" "HOL-Library.Sublist"
begin

section \<open>Data model (core/models.py)\<close>

text \<open>
  The enums of \<^verbatim>\<open>models.py\<close> are datatypes; \<^verbatim>\<open>.value\<close> of a member is its string.
  Python \<^verbatim>\<open>float\<close> timestamps are real numbers, Python \<^verbatim>\<open>int\<close> is \<open>int\<close>, \<^verbatim>\<open>str\<close> is
  \<open>string\<close>, a \<^verbatim>\<open>dict\<close> is an association list in insertion order.
\<close>

datatype ServerStatus = stopped | starting | running | stopping | crashed | updating | degraded

datatype HealthState = ok | warn | fail

fun status_value :: "ServerStatus \<Rightarrow> string" where
  "status_value stopped = ''stopped''"
| "status_value starting = ''starting''"
| "status_value running = ''running''"
| "status_value stopping = ''stopping''"
| "status_value crashed = ''crashed''"
| "status_value updating = ''updating''"
| "status_value degraded = ''degraded''"

fun health_value :: "HealthState \<Rightarrow> string" where
  "health_value ok = ''ok''"
| "health_value warn = ''warn''"
| "health_value fail = ''fail''"

text \<open>\<^verbatim>\<open>ServerConfig\<close>; the field \<^verbatim>\<open>id\<close> is \<open>cfg_id\<close> here (\<open>id\<close> is the identity function of HOL).\<close>

record ServerConfig =
  cfg_id :: string
  name :: string
  workdir :: string
  start_cmd :: "string list"
  stop_cmd :: "string list option"
  env :: "(string \<times> string) list"
  restart_policy :: string
  max_restart_per_minute :: int
  priority :: int
  health_port :: "int option"
  health_http_url :: "string option"
  health_timeout_s :: real
  log_important_keywords :: "string list"

text \<open>\<^verbatim>\<open>AppConfig\<close>, with the fields the core reads.\<close>

record AppConfig =
  client_id :: string
  max_servers :: int
  servers :: "ServerConfig list"

text \<open>The values that the core stores in the \<^verbatim>\<open>data\<close> dictionary of an event.\<close>

datatype pyval = PyStr string | PyInt int

text \<open>\<^verbatim>\<open>Event\<close>; the field \<^verbatim>\<open>type\<close> is \<open>event_type\<close> here.\<close>

record Event =
  event_type :: string
  ts :: real
  server_id :: "string option"
  data :: "(string \<times> pyval) list"

section \<open>The world outside a managed server\<close>

text \<open>
  Everything a \<^verbatim>\<open>ManagedServer\<close> talks to: the shared event queue (\<^verbatim>\<open>asyncio.Queue\<close>,
  unbounded, \<^verbatim>\<open>put\<close> appends), the wall clock and the operating system.
  \<^item> \<open>clock w n\<close> is what the \<open>n\<close>-th call of \<^verbatim>\<open>time.time()\<close> returns; \<open>reads\<close> counts the calls;
  \<^item> \<open>spawned\<close> logs every call of \<^verbatim>\<open>asyncio.create_subprocess_exec\<close>; the call number \<open>n\<close>
    succeeds iff \<open>spawn_ok w n\<close>, and raises otherwise;
  \<^item> \<open>environ\<close> is \<^verbatim>\<open>os.environ\<close>;
  \<^item> \<open>exit_on_stop w p\<close> is the return code with which the process of spawn \<open>p\<close> ends once
    it is terminated (or killed after the ten-second grace period).
\<close>

record spawn_call =
  argv :: "string list"
  cwd :: string
  envp :: "(string \<times> string) list"

record world =
  event_q :: "Event list"
  clock :: "nat \<Rightarrow> real"
  reads :: nat
  spawn_ok :: "nat \<Rightarrow> bool"
  spawned :: "spawn_call list"
  environ :: "(string \<times> string) list"
  exit_on_stop :: "nat \<Rightarrow> int"

text \<open>Exceptions are values; a call either returns or raises.\<close>

datatype error = KeyError string | ValueError string | RuntimeError string | OSError

datatype outcome = Returned | Raised error

section \<open>ProcessAdapter (process_adapter.py)\<close>

text \<open>
  \<^verbatim>\<open>asyncio.subprocess.Process\<close>: \<open>returncode\<close> is \<open>None\<close> while the process lives.
  \<open>pid\<close> is the number of the spawn call that created it. The adapter's only field is
  \<^verbatim>\<open>proc: Optional[Process]\<close>, so the adapter is that option.
\<close>

record Process =
  pid :: nat
  returncode :: "int option"

type_synonym ProcessAdapter = "Process option"

definition is_running :: "ProcessAdapter \<Rightarrow> bool" where
  "is_running p = (case p of None \<Rightarrow> False | Some pr \<Rightarrow> returncode pr = None)"

definition exit_code :: "ProcessAdapter \<Rightarrow> int option" where
  "exit_code p = (case p of None \<Rightarrow> None | Some pr \<Rightarrow> returncode pr)"

text \<open>\<^verbatim>\<open>dict.update\<close>: an existing key keeps its place, a new key goes to the end.\<close>

definition dict_update :: "('k \<times> 'v) list \<Rightarrow> ('k \<times> 'v) list \<Rightarrow> ('k \<times> 'v) list" where
  "dict_update d e = fold (\<lambda>(k, v). AList.update k v) e d"

text \<open>
  \<^verbatim>\<open>ProcessAdapter.start\<close>. The reader task it creates delivers the output lines later;
  each delivery is a call of \<open>on_log_line\<close> below.
\<close>

definition proc_start ::
  "string list \<Rightarrow> string \<Rightarrow> (string \<times> string) list \<Rightarrow> ProcessAdapter \<Rightarrow> world
    \<Rightarrow> outcome \<times> ProcessAdapter \<times> world" where
  "proc_start cmd wd e p w =
     (if is_running p then (Raised (RuntimeError ''process already running''), p, w)
      else
        let thing = dict_update (environ w) e;
            n = length (spawned w);
            w' = w\<lparr>spawned := spawned w @ [\<lparr>argv = cmd, cwd = wd, envp = thing\<rparr>]\<rparr>
        in if spawn_ok w n then (Returned, Some \<lparr>pid = n, returncode = None\<rparr>, w')
           else (Raised OSError, p, w'))"

text \<open>\<^verbatim>\<open>ProcessAdapter.stop\<close>: terminate, wait, kill after the timeout, wait.\<close>

definition proc_stop :: "ProcessAdapter \<Rightarrow> world \<Rightarrow> ProcessAdapter" where
  "proc_stop p w =
     (case p of
        None \<Rightarrow> p
      | Some pr \<Rightarrow>
          (case returncode pr of
             Some c \<Rightarrow> p
           | None \<Rightarrow> Some (pr\<lparr>returncode := Some (exit_on_stop w (pid pr))\<rparr>)))"

text \<open>The operating system ends a live process with return code \<open>c\<close>.\<close>

definition process_exits :: "int \<Rightarrow> ProcessAdapter \<Rightarrow> ProcessAdapter" where
  "process_exits c p =
     (case p of
        None \<Rightarrow> p
      | Some pr \<Rightarrow> (case returncode pr of Some c' \<Rightarrow> p | None \<Rightarrow> Some (pr\<lparr>returncode := Some c\<rparr>)))"

section \<open>ManagedServer (core/manager.py)\<close>

text \<open>
  The methods \<^verbatim>\<open>_now\<close>, \<^verbatim>\<open>_emit\<close>, \<^verbatim>\<open>_allow_restart\<close> and \<^verbatim>\<open>_on_log_line\<close> are \<open>now\<close>, \<open>emit\<close>,
  \<open>allow_restart\<close> and \<open>on_log_line\<close>. A method takes the server and the world and returns
  its outcome with the server and the world it leaves; an exception keeps the
  assignments made before it.

  \<open>status_log\<close> is a history variable: it records every value assigned to
  \<^verbatim>\<open>self.status\<close>, in order, and nothing reads it. The lock of the source serialises
  \<^verbatim>\<open>start\<close> and \<^verbatim>\<open>stop\<close> between tasks; one call at a time runs here.
\<close>

record ManagedServer =
  cfg :: ServerConfig
  proc :: ProcessAdapter
  status :: ServerStatus
  health :: HealthState
  restart_times :: "real list"
  status_log :: "ServerStatus list"

definition ManagedServer_init :: "ServerConfig \<Rightarrow> ManagedServer" where
  "ManagedServer_init c =
     \<lparr>cfg = c, proc = None, status = stopped, health = ok, restart_times = [], status_log = []\<rparr>"

definition set_status :: "ServerStatus \<Rightarrow> ManagedServer \<Rightarrow> ManagedServer" where
  "set_status st s = s\<lparr>status := st, status_log := status_log s @ [st]\<rparr>"

definition now :: "world \<Rightarrow> real \<times> world" where
  "now w = (clock w (reads w), w\<lparr>reads := Suc (reads w)\<rparr>)"

definition emit :: "ManagedServer \<Rightarrow> string \<Rightarrow> (string \<times> pyval) list \<Rightarrow> world \<Rightarrow> world" where
  "emit s ty d w =
     (let (t, w') = now w
      in w'\<lparr>event_q := event_q w' @ [\<lparr>event_type = ty, ts = t, server_id = Some (cfg_id (cfg s)), data = d\<rparr>]\<rparr>)"

definition allow_restart :: "ManagedServer \<Rightarrow> world \<Rightarrow> bool \<times> ManagedServer \<times> world" where
  "allow_restart s w =
     (let (n, w') = now w;
          minute_ago = n - 60;
          s' = s\<lparr>restart_times := filter (\<lambda>t. t \<ge> minute_ago) (restart_times s)\<rparr>
      in (int (length (restart_times s')) < max_restart_per_minute (cfg s'), s', w'))"

text \<open>The \<^verbatim>\<open>for kw in ...: if kw in line: ...; break\<close> loop of \<^verbatim>\<open>_on_log_line\<close>.\<close>

fun scan_keywords :: "string \<Rightarrow> string list \<Rightarrow> ManagedServer \<Rightarrow> world \<Rightarrow> world" where
  "scan_keywords line [] s w = w"
| "scan_keywords line (kw # kws) s w =
     (if sublist kw line
      then emit s ''important_log'' [(''line'', PyStr line), (''keyword'', PyStr kw)] w
      else scan_keywords line kws s w)"

definition on_log_line :: "string \<Rightarrow> ManagedServer \<Rightarrow> world \<Rightarrow> world" where
  "on_log_line line s w =
     scan_keywords line (log_important_keywords (cfg s)) s
       (emit s ''log_line'' [(''line'', PyStr line)] w)"

definition status_data :: "ManagedServer \<Rightarrow> string \<Rightarrow> (string \<times> pyval) list" where
  "status_data s reason = [(''status'', PyStr (status_value (status s))), (''reason'', PyStr reason)]"

definition start :: "string \<Rightarrow> ManagedServer \<Rightarrow> world \<Rightarrow> outcome \<times> ManagedServer \<times> world" where
  "start reason s w =
     (if is_running (proc s) then (Returned, s, w)
      else
        let s1 = set_status starting s;
            w1 = emit s1 ''status'' (status_data s1 reason) w;
            (r, p, w2) = proc_start (start_cmd (cfg s1)) (workdir (cfg s1)) (env (cfg s1)) (proc s1) w1
        in case r of
             Raised e \<Rightarrow> (Raised e, s1\<lparr>proc := p\<rparr>, w2)
           | Returned \<Rightarrow>
               let s2 = set_status running (s1\<lparr>proc := p\<rparr>)
               in (Returned, s2, emit s2 ''status'' (status_data s2 reason) w2))"

definition stop :: "string \<Rightarrow> ManagedServer \<Rightarrow> world \<Rightarrow> outcome \<times> ManagedServer \<times> world" where
  "stop reason s w =
     (if \<not> is_running (proc s) then
        let s1 = set_status stopped s
        in (Returned, s1, emit s1 ''status'' (status_data s1 reason) w)
      else
        let s1 = set_status stopping s;
            w1 = emit s1 ''status'' (status_data s1 reason) w;
            w2 = (if stop_cmd (cfg s1) \<noteq> None \<and> stop_cmd (cfg s1) \<noteq> Some []
                  then emit s1 ''info'' [(''msg'', PyStr ''stop_cmd not implemented yet'')] w1
                  else w1);
            s2 = set_status stopped (s1\<lparr>proc := proc_stop (proc s1) w2\<rparr>)
        in (Returned, s2, emit s2 ''status'' (status_data s2 reason) w2))"

definition restart :: "string \<Rightarrow> ManagedServer \<Rightarrow> world \<Rightarrow> outcome \<times> ManagedServer \<times> world" where
  "restart reason s w =
     (let (r, s1, w1) = stop reason s w
      in case r of
           Raised e \<Rightarrow> (Raised e, s1, w1)
         | Returned \<Rightarrow> start reason s1 w1)"

definition tick_supervisor :: "ManagedServer \<Rightarrow> world \<Rightarrow> outcome \<times> ManagedServer \<times> world" where
  "tick_supervisor s w =
     (if is_running (proc s) then (Returned, s, w)
      else
        case exit_code (proc s) of
          None \<Rightarrow> (Returned, s, w)
        | Some code \<Rightarrow>
            if code = 0 then (Returned, set_status stopped s, w)
            else
              let s1 = set_status crashed s;
                  w1 = emit s1 ''crash'' [(''exit_code'', PyInt code)] w
              in if restart_policy (cfg s1) = ''never'' then (Returned, s1, w1)
                 else
                   let (allowed, s2, w2) = allow_restart s1 w1
                   in if \<not> allowed
                      then (Returned, s2, emit s2 ''warn'' [(''msg'', PyStr ''restart rate limited'')] w2)
                      else
                        let (t, w3) = now w2;
                            s3 = s2\<lparr>restart_times := restart_times s2 @ [t]\<rparr>
                        in start ''auto_restart'' s3 w3)"

text \<open>
  \<^verbatim>\<open>tick_health\<close>. The two booleans of \<open>probe_results\<close> are what \<^verbatim>\<open>_check_port_open\<close> and
  \<^verbatim>\<open>_check_http\<close> return when they are called (a failed or timed-out probe returns
  \<^verbatim>\<open>False\<close>, it never raises). \<open>compute_health\<close> is the first part of the method, up to
  the assignment of \<^verbatim>\<open>new_state\<close>.
\<close>

record probe_results =
  port_open :: bool
  http_ok :: bool

definition compute_health :: "ServerConfig \<Rightarrow> probe_results \<Rightarrow> HealthState" where
  "compute_health c pr =
     (let ok0 = True;
          ok1 = (case health_port c of None \<Rightarrow> ok0 | Some port \<Rightarrow> ok0 \<and> port_open pr);
          ok2 = (if health_http_url c \<noteq> None \<and> health_http_url c \<noteq> Some []
                 then ok1 \<and> http_ok pr else ok1)
      in if ok2 then ok else fail)"

definition tick_health :: "probe_results \<Rightarrow> ManagedServer \<Rightarrow> world \<Rightarrow> outcome \<times> ManagedServer \<times> world" where
  "tick_health pr s w =
     (let new_state = compute_health (cfg s) pr
      in if new_state \<noteq> health s
         then let s' = s\<lparr>health := new_state\<rparr>
              in (Returned, s', emit s' ''health'' [(''health'', PyStr (health_value (health s')))] w)
         else (Returned, s, w))"

section \<open>PolarManager (core/manager.py)\<close>

text \<open>
  Python's \<^verbatim>\<open>xs[:n]\<close>: the first \<open>n\<close> entries for \<open>n \<ge> 0\<close>, all but the last \<open>-n\<close> for \<open>n < 0\<close>.
\<close>

definition py_slice_to :: "'a list \<Rightarrow> int \<Rightarrow> 'a list" where
  "py_slice_to xs n = (if 0 \<le> n then take (nat n) xs else take (length xs - nat (- n)) xs)"

text \<open>
  \<^verbatim>\<open>PolarManager\<close>: its \<^verbatim>\<open>cfg\<close> and \<^verbatim>\<open>servers\<close> are \<open>manager_cfg\<close> and \<open>manager_servers\<close>
  (the names are taken by the records above); its queue is \<open>event_q\<close> of the world.
\<close>

record PolarManager =
  manager_cfg :: AppConfig
  manager_servers :: "(string \<times> ManagedServer) list"

definition PolarManager_init :: "AppConfig \<Rightarrow> PolarManager" where
  "PolarManager_init c =
     (let thing = py_slice_to (servers c) (max_servers c)
      in \<lparr>manager_cfg = c,
          manager_servers =
            fold (\<lambda>otherThing m. AList.update (cfg_id otherThing) (ManagedServer_init otherThing) m) thing []\<rparr>)"

text \<open>The loop of \<^verbatim>\<open>start_all\<close> over \<^verbatim>\<open>self.servers.items()\<close>: an exception leaves the loop.\<close>

fun start_each ::
  "(string \<times> ManagedServer) list \<Rightarrow> world \<Rightarrow> outcome \<times> (string \<times> ManagedServer) list \<times> world" where
  "start_each [] w = (Returned, [], w)"
| "start_each ((sid, s) # rest) w =
     (let (r, s', w') = start ''boot'' s w
      in case r of
           Raised e \<Rightarrow> (Raised e, (sid, s') # rest, w')
         | Returned \<Rightarrow>
             let (r', rest', w'') = start_each rest w'
             in (r', (sid, s') # rest', w''))"

definition start_all :: "PolarManager \<Rightarrow> world \<Rightarrow> outcome \<times> PolarManager \<times> world" where
  "start_all m w =
     (let (r, ss, w') = start_each (manager_servers m) w
      in (r, m\<lparr>manager_servers := ss\<rparr>, w'))"

text \<open>Running a method of the server stored under \<open>sid\<close>; the object is mutated in place.\<close>

definition on_server ::
  "string \<Rightarrow> (ManagedServer \<Rightarrow> world \<Rightarrow> outcome \<times> ManagedServer \<times> world) \<Rightarrow> ManagedServer
    \<Rightarrow> PolarManager \<Rightarrow> world \<Rightarrow> outcome \<times> PolarManager \<times> world" where
  "on_server sid f thing m w =
     (let (r, s', w') = f thing w
      in (r, m\<lparr>manager_servers := AList.update sid s' (manager_servers m)\<rparr>, w'))"

definition do_action ::
  "string \<Rightarrow> string \<Rightarrow> string \<Rightarrow> PolarManager \<Rightarrow> world \<Rightarrow> outcome \<times> PolarManager \<times> world" where
  "do_action sid action reason m w =
     (case map_of (manager_servers m) sid of
        None \<Rightarrow> (Raised (KeyError ''unknown server_id''), m, w)
      | Some thing \<Rightarrow>
          if action = ''start'' then on_server sid (start reason) thing m w
          else if action = ''stop'' then on_server sid (stop reason) thing m w
          else if action = ''restart'' then on_server sid (restart reason) thing m w
          else (Raised (ValueError ''unknown action''), m, w))"

section \<open>Notions used to state the properties\<close>

text \<open>The events put on the queue between the worlds \<open>w\<close> and \<open>w'\<close>.\<close>

definition emitted :: "world \<Rightarrow> world \<Rightarrow> Event list" where
  "emitted w w' = drop (length (event_q w)) (event_q w')"

text \<open>The events of \<^verbatim>\<open>start\<close>, \<^verbatim>\<open>stop\<close> and \<^verbatim>\<open>tick_supervisor\<close>, as \<open>emit\<close> builds them.\<close>

definition status_event :: "ManagedServer \<Rightarrow> real \<Rightarrow> ServerStatus \<Rightarrow> string \<Rightarrow> Event" where
  "status_event s t st reason =
     \<lparr>event_type = ''status'', ts = t, server_id = Some (cfg_id (cfg s)),
      data = [(''status'', PyStr (status_value st)), (''reason'', PyStr reason)]\<rparr>"

definition crash_event :: "ManagedServer \<Rightarrow> real \<Rightarrow> int \<Rightarrow> Event" where
  "crash_event s t code =
     \<lparr>event_type = ''crash'', ts = t, server_id = Some (cfg_id (cfg s)),
      data = [(''exit_code'', PyInt code)]\<rparr>"

definition warn_event :: "ManagedServer \<Rightarrow> real \<Rightarrow> Event" where
  "warn_event s t =
     \<lparr>event_type = ''warn'', ts = t, server_id = Some (cfg_id (cfg s)),
      data = [(''msg'', PyStr ''restart rate limited'')]\<rparr>"

text \<open>
  The restart timestamps that \<^verbatim>\<open>_allow_restart\<close> keeps when \<^verbatim>\<open>tick_supervisor\<close> calls it
  in the world \<open>w\<close>: the crash event takes the clock reading number \<open>reads w\<close>, the rate
  limiter the next one.
\<close>

definition kept :: "ManagedServer \<Rightarrow> world \<Rightarrow> real list" where
  "kept s w = filter (\<lambda>t. clock w (Suc (reads w)) - 60 \<le> t) (restart_times s)"

text \<open>
  A call of \<^verbatim>\<open>start(reason="auto_restart")\<close> on a server whose process is not running
  emits one \<^verbatim>\<open>status\<close> event with status \<open>starting\<close> and that reason; the rate limiter's
  refusal emits one \<^verbatim>\<open>warn\<close> event.
\<close>

definition is_auto_restart_start :: "Event \<Rightarrow> bool" where
  "is_auto_restart_start e \<longleftrightarrow>
     event_type e = ''status'' \<and>
     data e = [(''status'', PyStr ''starting''), (''reason'', PyStr ''auto_restart'')]"

definition is_rate_limit_warn :: "Event \<Rightarrow> bool" where
  "is_rate_limit_warn e \<longleftrightarrow>
     event_type e = ''warn'' \<and> data e = [(''msg'', PyStr ''restart rate limited'')]"

text \<open>
  A run of crash detections: before each tick the operating system ends the process,
  if it lives, with the next code of the list.
\<close>

fun crash_ticks :: "int list \<Rightarrow> ManagedServer \<Rightarrow> world \<Rightarrow> ManagedServer \<times> world" where
  "crash_ticks [] s w = (s, w)"
| "crash_ticks (c # cs) s w =
     (let (r, s', w') = tick_supervisor (s\<lparr>proc := process_exits c (proc s)\<rparr>) w
      in crash_ticks cs s' w')"

text \<open>A sequence of health evaluations, one per entry of probe results.\<close>

fun health_ticks :: "probe_results list \<Rightarrow> ManagedServer \<Rightarrow> world \<Rightarrow> ManagedServer \<times> world" where
  "health_ticks [] s w = (s, w)"
| "health_ticks (pr # prs) s w = (let (r, s', w') = tick_health pr s w in health_ticks prs s' w')"

text \<open>The entries of a sequence of results that differ from their predecessor, \<open>prev\<close> being
  the predecessor of the first.\<close>

fun changes :: "HealthState \<Rightarrow> HealthState list \<Rightarrow> HealthState list" where
  "changes prev [] = []"
| "changes prev (h # hs) = (if h \<noteq> prev then h # changes h hs else changes h hs)"

text \<open>The server \<open>s\<close> with another restart policy in its configuration.\<close>

definition with_policy :: "string \<Rightarrow> ManagedServer \<Rightarrow> ManagedServer" where
  "with_policy p s = s\<lparr>cfg := (cfg s)\<lparr>restart_policy := p\<rparr>\<rparr>"

subsection \<open>Example configuration\<close>

definition example_cfg :: ServerConfig where
  "example_cfg =
     \<lparr>cfg_id = ''a'', name = ''alpha'', workdir = ''/srv/a'', start_cmd = [''./run''],
      stop_cmd = None, env = [], restart_policy = ''always'', max_restart_per_minute = 6,
      priority = 50, health_port = None, health_http_url = None, health_timeout_s = 2,
      log_important_keywords = [''ERROR'', ''FATAL'', ''panic'', ''Exception'']\<rparr>"

definition example_world :: world where
  "example_world =
     \<lparr>event_q = [], clock = (\<lambda>n. 1000 + real n), reads = 0, spawn_ok = (\<lambda>n. True),
      spawned = [], environ = [], exit_on_stop = (\<lambda>p. - 15)\<rparr>"

definition example_app :: AppConfig where
  "example_app =
     \<lparr>client_id = ''client-1'', max_servers = 25,
      servers = [example_cfg, example_cfg\<lparr>cfg_id := ''b'', name := ''beta''\<rparr>]\<rparr>"

definition example_health_cfg :: ServerConfig where
  "example_health_cfg =
     example_cfg\<lparr>health_port := Some 8080, health_http_url := Some ''http://127.0.0.1/''\<rparr>"

definition probes_up :: probe_results where
  "probes_up = \<lparr>port_open = True, http_ok = True\<rparr>"

definition probes_http_down :: probe_results where
  "probes_http_down = \<lparr>port_open = True, http_ok = False\<rparr>"

text \<open>
  The scenario of the specification: server \<open>a\<close> is started, then its process exits with
  code 1. In \<open>example_failing_world\<close> the first spawn fails.
\<close>

definition example_crashed :: ManagedServer where
  "example_crashed =
     (let (r, s, w) = start ''boot'' (ManagedServer_init example_cfg) example_world
      in s\<lparr>proc := process_exits 1 (proc s)\<rparr>)"

definition example_crashed_world :: world where
  "example_crashed_world = snd (snd (start ''boot'' (ManagedServer_init example_cfg) example_world))"

definition example_failing_world :: world where
  "example_failing_world = example_world\<lparr>spawn_ok := (\<lambda>n. n \<noteq> 0)\<rparr>"

text \<open>A clock that jumps ahead after the reading number 19; a server limited to 3 restarts.\<close>

definition example_jump_world :: world where
  "example_jump_world =
     example_crashed_world\<lparr>clock := (\<lambda>n. if n < 20 then 1000 + real n else 2000 + real n)\<rparr>"

definition example_limited :: ManagedServer where
  "example_limited = example_crashed\<lparr>cfg := example_cfg\<lparr>max_restart_per_minute := 3\<rparr>\<rparr>"

section \<open>Basic facts\<close>

lemma emit_eq:
  "emit s ty d w =
     w\<lparr>event_q := event_q w @ [\<lparr>event_type = ty, ts = clock w (reads w),
                               server_id = Some (cfg_id (cfg s)), data = d\<rparr>],
       reads := Suc (reads w)\<rparr>"
  by (simp add: emit_def now_def)

lemma start_running_noop: "is_running (proc s) \<Longrightarrow> start reason s w = (Returned, s, w)"
  by (simp add: start_def)

lemma start_returned_running: "start reason s w = (Returned, s', w') \<Longrightarrow> is_running (proc s')"
  by (auto simp: start_def proc_start_def Let_def is_running_def set_status_def
      split: if_splits prod.splits outcome.splits)

lemma start_not_running:
  assumes "\<not> is_running (proc s)"
  shows "start reason s w =
     (if spawn_ok w (length (spawned w))
      then (Returned,
            s\<lparr>proc := Some \<lparr>pid = length (spawned w), returncode = None\<rparr>, status := running,
              status_log := status_log s @ [starting, running]\<rparr>,
            w\<lparr>event_q := event_q w @ [status_event s (clock w (reads w)) starting reason,
                                      status_event s (clock w (Suc (reads w))) running reason],
              reads := Suc (Suc (reads w)),
              spawned := spawned w @ [\<lparr>argv = start_cmd (cfg s), cwd = workdir (cfg s),
                                       envp = dict_update (environ w) (env (cfg s))\<rparr>]\<rparr>)
      else (Raised OSError,
            s\<lparr>status := starting, status_log := status_log s @ [starting]\<rparr>,
            w\<lparr>event_q := event_q w @ [status_event s (clock w (reads w)) starting reason],
              reads := Suc (reads w),
              spawned := spawned w @ [\<lparr>argv = start_cmd (cfg s), cwd = workdir (cfg s),
                                       envp = dict_update (environ w) (env (cfg s))\<rparr>]\<rparr>))"
  using assms
  by (simp add: start_def proc_start_def Let_def set_status_def emit_eq status_data_def
      status_event_def)

section \<open>Starting a running server\<close>

text \<open>
  C6. \<^verbatim>\<open>start\<close> on a server whose process is running returns at once: the server, the
  event queue and the log of spawn calls are what they were. Hence a second \<^verbatim>\<open>start\<close>
  right after a \<^verbatim>\<open>start\<close> that returned changes nothing.
\<close>

theorem start_already_running_noop:
  "(is_running (proc s) \<longrightarrow> start reason s w = (Returned, s, w)) \<and>
   (start r1 s0 w0 = (Returned, s1, w1) \<longrightarrow> start r2 s1 w1 = (Returned, s1, w1))"
  using start_running_noop start_returned_running by blast

theorem start_already_running_noop_witness:
  "fst (start ''boot'' (ManagedServer_init example_cfg) example_world) = Returned \<and>
   is_running (proc (fst (snd (start ''boot'' (ManagedServer_init example_cfg) example_world)))) \<and>
   start ''api'' (fst (snd (start ''boot'' (ManagedServer_init example_cfg) example_world)))
                 (snd (snd (start ''boot'' (ManagedServer_init example_cfg) example_world)))
     = (Returned, snd (start ''boot'' (ManagedServer_init example_cfg) example_world))"
proof -
  let ?r = "start ''boot'' (ManagedServer_init example_cfg) example_world"
  have nr: "\<not> is_running (proc (ManagedServer_init example_cfg))"
    by (simp add: ManagedServer_init_def is_running_def)
  have ret: "fst ?r = Returned"
    by (simp add: start_not_running [OF nr] example_world_def)
  then have h: "?r = (Returned, fst (snd ?r), snd (snd ?r))"
    by (metis prod.collapse)
  have run: "is_running (proc (fst (snd ?r)))"
    using h by (rule start_returned_running)
  from start_already_running_noop
         [of "fst (snd ?r)" "''api''" "snd (snd ?r)" "''boot''" "ManagedServer_init example_cfg"
             example_world "fst (snd ?r)" "snd (snd ?r)" "''api''"]
  show ?thesis using ret h run by simp
qed

section \<open>Errors of the action dispatch\<close>

lemma start_no_KeyError: "fst (start reason s w) \<noteq> Raised (KeyError msg)"
  by (auto simp: start_def proc_start_def Let_def split: if_splits prod.splits outcome.splits)

lemma stop_Returned: "fst (stop reason s w) = Returned"
  by (simp add: stop_def Let_def)

lemma restart_no_KeyError: "fst (restart reason s w) \<noteq> Raised (KeyError msg)"
  using stop_Returned [of reason s w] start_no_KeyError
  by (auto simp: restart_def Let_def split: prod.splits outcome.splits)

lemma on_server_fst: "fst (on_server sid f thing m w) = fst (f thing w)"
  by (simp add: on_server_def split: prod.splits)

text \<open>
  C5. \<^verbatim>\<open>do_action\<close> raises \<^verbatim>\<open>KeyError\<close> (the NotFound condition) exactly when the id is not
  a key of the server map; for a known id and an action other than start, stop and
  restart it raises \<^verbatim>\<open>ValueError\<close> (InvalidArgument); in both error cases the manager
  (every server's status, health, restart window and process handle) and the world
  (the event queue among it) are returned unchanged.
\<close>

theorem do_action_errors:
  "((\<exists>msg. fst (do_action sid action reason m w) = Raised (KeyError msg))
      \<longleftrightarrow> sid \<notin> fst ` set (manager_servers m)) \<and>
   (sid \<in> fst ` set (manager_servers m) \<and> action \<notin> {''start'', ''stop'', ''restart''}
      \<longrightarrow> fst (do_action sid action reason m w) = Raised (ValueError ''unknown action'')) \<and>
   (sid \<notin> fst ` set (manager_servers m) \<or> action \<notin> {''start'', ''stop'', ''restart''}
      \<longrightarrow> snd (do_action sid action reason m w) = (m, w))"
proof (cases "map_of (manager_servers m) sid")
  case None
  then have "sid \<notin> fst ` set (manager_servers m)"
    by (simp add: map_of_eq_None_iff)
  with None show ?thesis
    by (simp add: do_action_def)
next
  case (Some thing)
  then have known: "sid \<in> fst ` set (manager_servers m)"
    by (metis map_of_eq_None_iff option.distinct(1))
  have "fst (do_action sid action reason m w) \<noteq> Raised (KeyError msg)" for msg
    using Some start_no_KeyError restart_no_KeyError stop_Returned
    by (simp add: do_action_def on_server_fst)
  with Some known show ?thesis
    by (auto simp: do_action_def)
qed

theorem do_action_errors_witness:
  "''zz'' \<notin> fst ` set (manager_servers (PolarManager_init example_app)) \<and>
   fst (do_action ''zz'' ''start'' ''api'' (PolarManager_init example_app) example_world)
     = Raised (KeyError ''unknown server_id'') \<and>
   snd (do_action ''zz'' ''start'' ''api'' (PolarManager_init example_app) example_world)
     = (PolarManager_init example_app, example_world) \<and>
   ''a'' \<in> fst ` set (manager_servers (PolarManager_init example_app)) \<and>
   ''dance'' \<notin> {''start'', ''stop'', ''restart''} \<and>
   fst (do_action ''a'' ''dance'' ''api'' (PolarManager_init example_app) example_world)
     = Raised (ValueError ''unknown action'') \<and>
   snd (do_action ''a'' ''dance'' ''api'' (PolarManager_init example_app) example_world)
     = (PolarManager_init example_app, example_world)"
proof -
  let ?m = "PolarManager_init example_app"
  have keys: "fst ` set (manager_servers ?m) = {''a'', ''b''}"
    by (simp add: PolarManager_init_def example_app_def example_cfg_def py_slice_to_def)
  have unknown: "''zz'' \<notin> fst ` set (manager_servers ?m)"
    by (simp add: keys)
  have known: "''a'' \<in> fst ` set (manager_servers ?m)"
    by (simp add: keys)
  have bad: "''dance'' \<notin> {''start'', ''stop'', ''restart''}"
    by simp
  have kerr: "fst (do_action ''zz'' ''start'' ''api'' ?m example_world)
                = Raised (KeyError ''unknown server_id'')"
  proof -
    have "map_of (manager_servers ?m) ''zz'' = None"
      using unknown by (simp add: map_of_eq_None_iff)
    then show ?thesis by (simp add: do_action_def)
  qed
  from do_action_errors [of "''zz''" "''start''" "''api''" ?m example_world]
       do_action_errors [of "''a''" "''dance''" "''api''" ?m example_world]
  show ?thesis using unknown known bad kerr by blast
qed

section \<open>Construction of the manager\<close>

lemma find_app:
  "List.find P (xs @ ys) = (case List.find P xs of None \<Rightarrow> List.find P ys | Some x \<Rightarrow> Some x)"
  by (induction xs) simp_all

lemma find_SomeD: "List.find P xs = Some x \<Longrightarrow> P x \<and> x \<in> set xs"
  by (induction xs) (auto split: if_splits)

lemma fold_update_distinct:
  "distinct (map fst acc) \<Longrightarrow>
     distinct (map fst (fold (\<lambda>c m. AList.update (k c) (f c) m) xs acc))"
  by (induction xs arbitrary: acc) (simp_all add: distinct_update)

lemma fold_update_dom:
  "fst ` set (fold (\<lambda>c m. AList.update (k c) (f c) m) xs acc) = fst ` set acc \<union> k ` set xs"
  by (induction xs arbitrary: acc) (auto simp: dom_update)

text \<open>The value under a key is built from the last entry with that key.\<close>

lemma fold_update_map_of:
  "map_of (fold (\<lambda>c m. AList.update (k c) (f c) m) xs acc) a =
     (case List.find (\<lambda>c. k c = a) (rev xs) of Some c \<Rightarrow> Some (f c) | None \<Rightarrow> map_of acc a)"
proof (induction xs arbitrary: acc)
  case Nil
  then show ?case by simp
next
  case (Cons x xs)
  show ?case
    by (simp add: Cons.IH update_conv' find_app split: option.splits)
qed

lemma py_slice_to_nonneg: "0 \<le> n \<Longrightarrow> py_slice_to xs n = take (nat n) xs"
  by (simp add: py_slice_to_def)

lemma init_parts:
  assumes "0 \<le> max_servers c"
  shows "py_slice_to (servers c) (max_servers c) = take (nat (max_servers c)) (servers c)"
    and "int (length (py_slice_to (servers c) (max_servers c))) \<le> max_servers c"
    and "int (length (manager_servers (PolarManager_init c))) \<le> max_servers c"
    and "distinct (map fst (manager_servers (PolarManager_init c)))"
    and "fst ` set (manager_servers (PolarManager_init c))
           = cfg_id ` set (py_slice_to (servers c) (max_servers c))"
    and "\<forall>(k, s) \<in> set (manager_servers (PolarManager_init c)).
           \<exists>x \<in> set (py_slice_to (servers c) (max_servers c)).
             cfg_id x = k \<and> s = ManagedServer_init x"
proof -
  let ?thing = "py_slice_to (servers c) (max_servers c)"
  let ?ms = "manager_servers (PolarManager_init c)"
  have ms: "?ms = fold (\<lambda>x m. AList.update (cfg_id x) (ManagedServer_init x) m) ?thing []"
    by (simp add: PolarManager_init_def Let_def)
  show t: "?thing = take (nat (max_servers c)) (servers c)"
    using assms by (rule py_slice_to_nonneg)
  show len: "int (length ?thing) \<le> max_servers c"
    using assms by (simp add: t)
  show d: "distinct (map fst ?ms)"
    unfolding ms by (rule fold_update_distinct) simp
  show dom: "fst ` set ?ms = cfg_id ` set ?thing"
    unfolding ms by (simp add: fold_update_dom)
  have "length ?ms = card (fst ` set ?ms)"
    using d by (metis distinct_card length_map set_map)
  also have "\<dots> \<le> length ?thing"
    unfolding dom by (metis card_image_le card_length List.finite_set le_trans)
  finally show "int (length ?ms) \<le> max_servers c"
    using len by linarith
  show "\<forall>(k, s) \<in> set ?ms. \<exists>x \<in> set ?thing. cfg_id x = k \<and> s = ManagedServer_init x"
  proof (clarify)
    fix k s
    assume "(k, s) \<in> set ?ms"
    with d have "map_of ?ms k = Some s" by simp
    then have "(case List.find (\<lambda>x. cfg_id x = k) (rev ?thing) of
                  Some x \<Rightarrow> Some (ManagedServer_init x) | None \<Rightarrow> None) = Some s"
      unfolding ms by (simp add: fold_update_map_of split: option.splits)
    then obtain x where
      "List.find (\<lambda>x. cfg_id x = k) (rev ?thing) = Some x" "s = ManagedServer_init x"
      by (auto split: option.splits)
    then show "\<exists>x \<in> set ?thing. cfg_id x = k \<and> s = ManagedServer_init x"
      using find_SomeD [of "\<lambda>x. cfg_id x = k" "rev ?thing" x] by auto
  qed
qed

text \<open>
  C9 does not hold of the code for a negative \<^verbatim>\<open>max_servers\<close>. The constructor takes
  \<^verbatim>\<open>cfg.servers[: cfg.max_servers]\<close> with no clamp, and a negative bound of a Python
  slice counts from the end: with two configured servers and \<^verbatim>\<open>max_servers = -1\<close> the
  slice keeps the first entry, and the manager instantiates and holds the server \<open>a\<close>,
  where the bound allows none.
\<close>

theorem init_negative_max_servers:
  "max_servers (example_app\<lparr>max_servers := - 1\<rparr>) = - 1 \<and>
   py_slice_to (servers (example_app\<lparr>max_servers := - 1\<rparr>))
     (max_servers (example_app\<lparr>max_servers := - 1\<rparr>)) = [example_cfg] \<and>
   manager_servers (PolarManager_init (example_app\<lparr>max_servers := - 1\<rparr>))
     = [(''a'', ManagedServer_init example_cfg)]"
  by (simp add: PolarManager_init_def example_app_def py_slice_to_def example_cfg_def)

text \<open>
  For a bound \<^verbatim>\<open>max_servers\<close> \<open>\<ge> 0\<close> the constructor does what C9 says: the configured list
  is truncated to its first \<^verbatim>\<open>max_servers\<close> entries, so at most \<^verbatim>\<open>max_servers\<close> servers are
  instantiated and at most that many are held; the keys of the server map are distinct,
  they are exactly the ids of the retained entries, and the server under a key is a
  freshly initialised one of a retained entry with that id.
\<close>

theorem init_truncates:
  assumes "0 \<le> max_servers c"
  shows "py_slice_to (servers c) (max_servers c) = take (nat (max_servers c)) (servers c) \<and>
         int (length (py_slice_to (servers c) (max_servers c))) \<le> max_servers c \<and>
         int (length (manager_servers (PolarManager_init c))) \<le> max_servers c \<and>
         distinct (map fst (manager_servers (PolarManager_init c))) \<and>
         fst ` set (manager_servers (PolarManager_init c))
           = cfg_id ` set (py_slice_to (servers c) (max_servers c)) \<and>
         (\<forall>(k, s) \<in> set (manager_servers (PolarManager_init c)).
            \<exists>x \<in> set (py_slice_to (servers c) (max_servers c)).
              cfg_id x = k \<and> s = ManagedServer_init x)"
  using init_parts [OF assms] by blast

theorem init_truncates_witness:
  "0 \<le> max_servers (example_app\<lparr>max_servers := 1\<rparr>) \<and>
   py_slice_to (servers (example_app\<lparr>max_servers := 1\<rparr>)) 1 = [example_cfg] \<and>
   manager_servers (PolarManager_init (example_app\<lparr>max_servers := 1\<rparr>))
     = [(''a'', ManagedServer_init example_cfg)] \<and>
   int (length (manager_servers (PolarManager_init (example_app\<lparr>max_servers := 1\<rparr>)))) \<le> 1 \<and>
   distinct (map fst (manager_servers (PolarManager_init (example_app\<lparr>max_servers := 1\<rparr>))))"
proof -
  let ?c = "example_app\<lparr>max_servers := 1\<rparr>"
  have h: "0 \<le> max_servers ?c" by simp
  have m: "max_servers ?c = 1" by simp
  have sl: "py_slice_to (servers ?c) 1 = [example_cfg]"
    by (simp add: py_slice_to_def example_app_def)
  have ms: "manager_servers (PolarManager_init ?c) = [(''a'', ManagedServer_init example_cfg)]"
    by (simp add: PolarManager_init_def py_slice_to_def example_app_def example_cfg_def)
  from init_truncates [OF h] show ?thesis
    using h sl ms unfolding m by simp
qed

section \<open>Log lines\<close>

lemma scan_keywords_find:
  "scan_keywords line kws s w =
     (case List.find (\<lambda>kw. sublist kw line) kws of
        None \<Rightarrow> w
      | Some kw \<Rightarrow> emit s ''important_log'' [(''line'', PyStr line), (''keyword'', PyStr kw)] w)"
  by (induction kws) simp_all

lemma on_log_line_emitted:
  "event_q (on_log_line line s w) = event_q w @
     \<lparr>event_type = ''log_line'', ts = clock w (reads w), server_id = Some (cfg_id (cfg s)),
       data = [(''line'', PyStr line)]\<rparr> #
     (case List.find (\<lambda>kw. sublist kw line) (log_important_keywords (cfg s)) of
        None \<Rightarrow> []
      | Some kw \<Rightarrow> [\<lparr>event_type = ''important_log'', ts = clock w (Suc (reads w)),
                      server_id = Some (cfg_id (cfg s)),
                      data = [(''line'', PyStr line), (''keyword'', PyStr kw)]\<rparr>])"
  by (simp add: on_log_line_def scan_keywords_find emit_eq split: option.splits)

lemma on_log_line_counts:
  "event_q (on_log_line line s w) = event_q w @ emitted w (on_log_line line s w) \<and>
   length (filter (\<lambda>e. event_type e = ''log_line'') (emitted w (on_log_line line s w))) = 1 \<and>
   (\<forall>e \<in> set (emitted w (on_log_line line s w)).
      event_type e = ''log_line'' \<longrightarrow> data e = [(''line'', PyStr line)]) \<and>
   length (filter (\<lambda>e. event_type e = ''important_log'') (emitted w (on_log_line line s w))) \<le> 1 \<and>
   (\<forall>e \<in> set (emitted w (on_log_line line s w)).
      event_type e = ''important_log'' \<longrightarrow>
        (\<exists>i < length (log_important_keywords (cfg s)).
           data e = [(''line'', PyStr line),
                     (''keyword'', PyStr (log_important_keywords (cfg s) ! i))] \<and>
           sublist (log_important_keywords (cfg s) ! i) line \<and>
           (\<forall>j < i. \<not> sublist (log_important_keywords (cfg s) ! j) line)))"
proof (cases "List.find (\<lambda>kw. sublist kw line) (log_important_keywords (cfg s))")
  case None
  then show ?thesis
    by (simp add: emitted_def on_log_line_emitted)
next
  case (Some kw)
  then obtain i where "i < length (log_important_keywords (cfg s))"
      "kw = log_important_keywords (cfg s) ! i" "sublist kw line"
      "\<forall>j < i. \<not> sublist (log_important_keywords (cfg s) ! j) line"
    by (auto simp: find_Some_iff)
  with Some show ?thesis
    by (auto simp: emitted_def on_log_line_emitted)
qed

lemma on_log_line_no_keyword:
  assumes "\<forall>kw \<in> set (log_important_keywords (cfg s)). \<not> sublist kw line"
  shows "emitted w (on_log_line line s w) =
        [\<lparr>event_type = ''log_line'', ts = clock w (reads w), server_id = Some (cfg_id (cfg s)),
          data = [(''line'', PyStr line)]\<rparr>]"
proof -
  have "List.find (\<lambda>kw. sublist kw line) (log_important_keywords (cfg s)) = None"
    using assms by (simp add: find_None_iff)
  then show ?thesis
    by (simp add: emitted_def on_log_line_emitted)
qed

lemma on_log_line_first_keyword:
  assumes "i < length (log_important_keywords (cfg s))"
    and "sublist (log_important_keywords (cfg s) ! i) line"
    and "\<forall>j < i. \<not> sublist (log_important_keywords (cfg s) ! j) line"
  shows "emitted w (on_log_line line s w) =
        [\<lparr>event_type = ''log_line'', ts = clock w (reads w), server_id = Some (cfg_id (cfg s)),
          data = [(''line'', PyStr line)]\<rparr>,
         \<lparr>event_type = ''important_log'', ts = clock w (Suc (reads w)),
          server_id = Some (cfg_id (cfg s)),
          data = [(''line'', PyStr line),
                  (''keyword'', PyStr (log_important_keywords (cfg s) ! i))]\<rparr>]"
proof -
  have "List.find (\<lambda>kw. sublist kw line) (log_important_keywords (cfg s))
          = Some (log_important_keywords (cfg s) ! i)"
    unfolding find_Some_iff using assms by blast
  then show ?thesis
    by (simp add: emitted_def on_log_line_emitted)
qed

text \<open>
  C8. A line delivered to \<^verbatim>\<open>_on_log_line\<close> puts exactly one \<^verbatim>\<open>log_line\<close> event on the
  queue, carrying the raw line, and at most one \<^verbatim>\<open>important_log\<close> event, however many
  keywords occur in the line; the keyword of that event is the first entry of the
  configured keyword list that is a substring of the line. Precisely: when no configured
  keyword occurs in the line, the \<^verbatim>\<open>log_line\<close> event is all that is emitted; when the entry
  number \<open>i\<close> of the list occurs in the line and no earlier entry does, the \<^verbatim>\<open>log_line\<close>
  event is followed by one \<^verbatim>\<open>important_log\<close> event with that entry as its keyword, and
  nothing else is emitted.
\<close>

theorem on_log_line_events:
  "event_q (on_log_line line s w) = event_q w @ emitted w (on_log_line line s w) \<and>
   length (filter (\<lambda>e. event_type e = ''log_line'') (emitted w (on_log_line line s w))) = 1 \<and>
   (\<forall>e \<in> set (emitted w (on_log_line line s w)).
      event_type e = ''log_line'' \<longrightarrow> data e = [(''line'', PyStr line)]) \<and>
   length (filter (\<lambda>e. event_type e = ''important_log'') (emitted w (on_log_line line s w))) \<le> 1 \<and>
   (\<forall>e \<in> set (emitted w (on_log_line line s w)).
      event_type e = ''important_log'' \<longrightarrow>
        (\<exists>i < length (log_important_keywords (cfg s)).
           data e = [(''line'', PyStr line),
                     (''keyword'', PyStr (log_important_keywords (cfg s) ! i))] \<and>
           sublist (log_important_keywords (cfg s) ! i) line \<and>
           (\<forall>j < i. \<not> sublist (log_important_keywords (cfg s) ! j) line))) \<and>
   ((\<forall>kw \<in> set (log_important_keywords (cfg s)). \<not> sublist kw line) \<longrightarrow>
      emitted w (on_log_line line s w) =
        [\<lparr>event_type = ''log_line'', ts = clock w (reads w), server_id = Some (cfg_id (cfg s)),
          data = [(''line'', PyStr line)]\<rparr>]) \<and>
   (\<forall>i < length (log_important_keywords (cfg s)).
      sublist (log_important_keywords (cfg s) ! i) line \<and>
      (\<forall>j < i. \<not> sublist (log_important_keywords (cfg s) ! j) line) \<longrightarrow>
      emitted w (on_log_line line s w) =
        [\<lparr>event_type = ''log_line'', ts = clock w (reads w), server_id = Some (cfg_id (cfg s)),
          data = [(''line'', PyStr line)]\<rparr>,
         \<lparr>event_type = ''important_log'', ts = clock w (Suc (reads w)),
          server_id = Some (cfg_id (cfg s)),
          data = [(''line'', PyStr line),
                  (''keyword'', PyStr (log_important_keywords (cfg s) ! i))]\<rparr>])"
  (is "?a \<and> ?b \<and> ?c \<and> ?d \<and> ?e \<and> ?f \<and> ?g")
proof -
  have counts: "?a \<and> ?b \<and> ?c \<and> ?d \<and> ?e"
    by (rule on_log_line_counts)
  have f: ?f
  proof
    assume "\<forall>kw \<in> set (log_important_keywords (cfg s)). \<not> sublist kw line"
    then show "emitted w (on_log_line line s w) =
        [\<lparr>event_type = ''log_line'', ts = clock w (reads w), server_id = Some (cfg_id (cfg s)),
          data = [(''line'', PyStr line)]\<rparr>]"
      by (rule on_log_line_no_keyword)
  qed
  have g: ?g
  proof (intro allI impI)
    fix i
    assume "i < length (log_important_keywords (cfg s))"
      and "sublist (log_important_keywords (cfg s) ! i) line \<and>
           (\<forall>j < i. \<not> sublist (log_important_keywords (cfg s) ! j) line)"
    then show "emitted w (on_log_line line s w) =
        [\<lparr>event_type = ''log_line'', ts = clock w (reads w), server_id = Some (cfg_id (cfg s)),
          data = [(''line'', PyStr line)]\<rparr>,
         \<lparr>event_type = ''important_log'', ts = clock w (Suc (reads w)),
          server_id = Some (cfg_id (cfg s)),
          data = [(''line'', PyStr line),
                  (''keyword'', PyStr (log_important_keywords (cfg s) ! i))]\<rparr>]"
      using on_log_line_first_keyword [of i s line w] by (elim conjE) (rule on_log_line_first_keyword)
  qed
  from counts f g show ?thesis
    by (intro conjI) (elim conjE, assumption)+
qed

theorem on_log_line_events_witness:
  "sublist ''FATAL'' ''FATAL'' \<and> \<not> sublist ''ERROR'' ''FATAL'' \<and>
   emitted example_world (on_log_line ''FATAL'' (ManagedServer_init example_cfg) example_world) =
     [\<lparr>event_type = ''log_line'', ts = 1000, server_id = Some ''a'',
       data = [(''line'', PyStr ''FATAL'')]\<rparr>,
      \<lparr>event_type = ''important_log'', ts = 1001, server_id = Some ''a'',
       data = [(''line'', PyStr ''FATAL''), (''keyword'', PyStr ''FATAL'')]\<rparr>] \<and>
   sublist ''FATAL'' ''FATAL ERROR'' \<and> sublist ''ERROR'' ''FATAL ERROR'' \<and>
   emitted example_world
     (on_log_line ''FATAL ERROR'' (ManagedServer_init example_cfg) example_world) =
     [\<lparr>event_type = ''log_line'', ts = 1000, server_id = Some ''a'',
       data = [(''line'', PyStr ''FATAL ERROR'')]\<rparr>,
      \<lparr>event_type = ''important_log'', ts = 1001, server_id = Some ''a'',
       data = [(''line'', PyStr ''FATAL ERROR''), (''keyword'', PyStr ''ERROR'')]\<rparr>] \<and>
   emitted example_world (on_log_line ''ready'' (ManagedServer_init example_cfg) example_world) =
     [\<lparr>event_type = ''log_line'', ts = 1000, server_id = Some ''a'',
       data = [(''line'', PyStr ''ready'')]\<rparr>]"
proof -
  let ?s = "ManagedServer_init example_cfg"
  let ?kws = "log_important_keywords (cfg ?s)"
  have kws: "?kws = [''ERROR'', ''FATAL'', ''panic'', ''Exception'']" "cfg_id (cfg ?s) = ''a''"
    by (simp_all add: ManagedServer_init_def example_cfg_def)
  have w: "clock example_world (reads example_world) = 1000"
      "clock example_world (Suc (reads example_world)) = 1001"
    by (simp_all add: example_world_def)
  have a: "sublist ''FATAL'' ''FATAL''" "\<not> sublist ''ERROR'' ''FATAL''"
    by (simp_all add: sublist_code)
  have b: "sublist ''FATAL'' ''FATAL ERROR''" "sublist ''ERROR'' ''FATAL ERROR''"
    by (simp_all add: sublist_code)
  have none: "\<forall>kw \<in> set ?kws. \<not> sublist kw ''ready''"
    by (simp add: kws sublist_code)
  have one: "Suc 0 < length ?kws" "sublist (?kws ! Suc 0) ''FATAL''"
      "\<forall>j < Suc 0. \<not> sublist (?kws ! j) ''FATAL''"
    using a by (simp_all add: kws)
  have zero: "0 < length ?kws" "sublist (?kws ! 0) ''FATAL ERROR''"
      "\<forall>j < 0. \<not> sublist (?kws ! j) ''FATAL ERROR''"
    using b by (simp_all add: kws)
  note later = on_log_line_events [of "''FATAL''" ?s example_world]
  note both = on_log_line_events [of "''FATAL ERROR''" ?s example_world]
  note quiet = on_log_line_events [of "''ready''" ?s example_world]
  have e1: "emitted example_world (on_log_line ''FATAL'' ?s example_world) =
     [\<lparr>event_type = ''log_line'', ts = clock example_world (reads example_world),
       server_id = Some (cfg_id (cfg ?s)), data = [(''line'', PyStr ''FATAL'')]\<rparr>,
      \<lparr>event_type = ''important_log'', ts = clock example_world (Suc (reads example_world)),
       server_id = Some (cfg_id (cfg ?s)),
       data = [(''line'', PyStr ''FATAL''), (''keyword'', PyStr (?kws ! Suc 0))]\<rparr>]"
    using later one by blast
  have e2: "emitted example_world (on_log_line ''FATAL ERROR'' ?s example_world) =
     [\<lparr>event_type = ''log_line'', ts = clock example_world (reads example_world),
       server_id = Some (cfg_id (cfg ?s)), data = [(''line'', PyStr ''FATAL ERROR'')]\<rparr>,
      \<lparr>event_type = ''important_log'', ts = clock example_world (Suc (reads example_world)),
       server_id = Some (cfg_id (cfg ?s)),
       data = [(''line'', PyStr ''FATAL ERROR''), (''keyword'', PyStr (?kws ! 0))]\<rparr>]"
    using both zero by blast
  have e3: "emitted example_world (on_log_line ''ready'' ?s example_world) =
     [\<lparr>event_type = ''log_line'', ts = clock example_world (reads example_world),
       server_id = Some (cfg_id (cfg ?s)), data = [(''line'', PyStr ''ready'')]\<rparr>]"
    using quiet none by blast
  show ?thesis
    using a b by (simp add: e1 e2 e3 w kws)
qed

section \<open>Health evaluations\<close>

lemma compute_health_and:
  "compute_health c pr =
     (if (health_port c \<noteq> None \<longrightarrow> port_open pr) \<and>
         (health_http_url c \<noteq> None \<and> health_http_url c \<noteq> Some [] \<longrightarrow> http_ok pr)
      then ok else fail)"
  by (auto simp: compute_health_def split: option.splits)

lemma tick_health_step:
  "tick_health pr s w = (r, s', w') \<Longrightarrow>
     r = Returned \<and> s' = s\<lparr>health := compute_health (cfg s) pr\<rparr> \<and>
     event_q w' = event_q w @
        (if compute_health (cfg s) pr \<noteq> health s
         then [\<lparr>event_type = ''health'', ts = clock w (reads w), server_id = Some (cfg_id (cfg s)),
                 data = [(''health'', PyStr (health_value (compute_health (cfg s) pr)))]\<rparr>]
         else [])"
  by (auto simp: tick_health_def Let_def emit_eq split: if_splits)

lemma health_ticks_events:
  "health_ticks prs s w = (s', w') \<Longrightarrow>
     (\<exists>new. event_q w' = event_q w @ new \<and>
        map (\<lambda>e. (event_type e, server_id e, data e)) new =
          map (\<lambda>h. (''health'', Some (cfg_id (cfg s)), [(''health'', PyStr (health_value h))]))
            (changes (health s) (map (compute_health (cfg s)) prs)))"
proof (induction prs arbitrary: s w)
  case Nil
  then show ?case by simp
next
  case (Cons pr prs)
  obtain r s1 w1 where t: "tick_health pr s w = (r, s1, w1)"
    by (cases "tick_health pr s w") auto
  with Cons.prems have rest: "health_ticks prs s1 w1 = (s', w')"
    by simp
  from Cons.IH [OF rest] tick_health_step [OF t] show ?case
    by auto
qed

text \<open>
  C7. The health computed by \<^verbatim>\<open>tick_health\<close> is \<open>ok\<close> iff every configured probe passes
  (the port probe is configured when \<^verbatim>\<open>health_port\<close> is not \<^verbatim>\<open>None\<close>, the HTTP probe when
  \<^verbatim>\<open>health_http_url\<close> is a non-empty string; with none configured it is \<open>ok\<close>), and \<open>fail\<close>
  otherwise. An evaluation stores the computed state and emits one \<^verbatim>\<open>health\<close> event iff
  the computed state differs from the stored one. So over any sequence of evaluations
  the \<^verbatim>\<open>health\<close> events are exactly the computed states that differ from the state
  computed by the evaluation before (from the stored state, for the first).
\<close>

theorem tick_health_events:
  "compute_health c pr =
     (if (health_port c \<noteq> None \<longrightarrow> port_open pr) \<and>
         (health_http_url c \<noteq> None \<and> health_http_url c \<noteq> Some [] \<longrightarrow> http_ok pr)
      then ok else fail) \<and>
   (case tick_health pr s w of
      (r, s', w') \<Rightarrow>
        r = Returned \<and> s' = s\<lparr>health := compute_health (cfg s) pr\<rparr> \<and>
        event_q w' = event_q w @ emitted w w' \<and>
        emitted w w' =
          (if compute_health (cfg s) pr \<noteq> health s
           then [\<lparr>event_type = ''health'', ts = clock w (reads w),
                   server_id = Some (cfg_id (cfg s)),
                   data = [(''health'', PyStr (health_value (compute_health (cfg s) pr)))]\<rparr>]
           else [])) \<and>
   (case health_ticks prs s w of
      (s', w') \<Rightarrow>
        event_q w' = event_q w @ emitted w w' \<and>
        map (\<lambda>e. (event_type e, server_id e, data e)) (emitted w w') =
          map (\<lambda>h. (''health'', Some (cfg_id (cfg s)), [(''health'', PyStr (health_value h))]))
            (changes (health s) (map (compute_health (cfg s)) prs)))"
proof (intro conjI)
  show "compute_health c pr =
     (if (health_port c \<noteq> None \<longrightarrow> port_open pr) \<and>
         (health_http_url c \<noteq> None \<and> health_http_url c \<noteq> Some [] \<longrightarrow> http_ok pr)
      then ok else fail)"
    by (rule compute_health_and)
next
  obtain r s' w' where t: "tick_health pr s w = (r, s', w')"
    by (cases "tick_health pr s w") auto
  from tick_health_step [OF t] show
    "case tick_health pr s w of
      (r, s', w') \<Rightarrow>
        r = Returned \<and> s' = s\<lparr>health := compute_health (cfg s) pr\<rparr> \<and>
        event_q w' = event_q w @ emitted w w' \<and>
        emitted w w' =
          (if compute_health (cfg s) pr \<noteq> health s
           then [\<lparr>event_type = ''health'', ts = clock w (reads w),
                   server_id = Some (cfg_id (cfg s)),
                   data = [(''health'', PyStr (health_value (compute_health (cfg s) pr)))]\<rparr>]
           else [])"
    by (simp add: t emitted_def)
next
  obtain s' w' where t: "health_ticks prs s w = (s', w')"
    by (cases "health_ticks prs s w") auto
  from health_ticks_events [OF t] show
    "case health_ticks prs s w of
      (s', w') \<Rightarrow>
        event_q w' = event_q w @ emitted w w' \<and>
        map (\<lambda>e. (event_type e, server_id e, data e)) (emitted w w') =
          map (\<lambda>h. (''health'', Some (cfg_id (cfg s)), [(''health'', PyStr (health_value h))]))
            (changes (health s) (map (compute_health (cfg s)) prs))"
    by (auto simp: t emitted_def)
qed

theorem tick_health_events_witness:
  "health_port example_health_cfg \<noteq> None \<and>
   health_http_url example_health_cfg \<noteq> None \<and>
   health_http_url example_health_cfg \<noteq> Some [] \<and>
   compute_health example_health_cfg probes_http_down = fail \<and>
   compute_health example_health_cfg probes_up = ok \<and>
   map data (emitted example_world
      (snd (snd (tick_health probes_http_down (ManagedServer_init example_health_cfg) example_world))))
     = [[(''health'', PyStr ''fail'')]] \<and>
   map (\<lambda>e. (event_type e, server_id e, data e))
     (emitted example_world
        (snd (health_ticks [probes_http_down, probes_http_down, probes_up, probes_up, probes_http_down]
                (ManagedServer_init example_health_cfg) example_world)))
     = [(''health'', Some ''a'', [(''health'', PyStr ''fail'')]),
        (''health'', Some ''a'', [(''health'', PyStr ''ok'')]),
        (''health'', Some ''a'', [(''health'', PyStr ''fail'')])]"
proof -
  have c: "health_port example_health_cfg \<noteq> None" "health_http_url example_health_cfg \<noteq> None"
      "health_http_url example_health_cfg \<noteq> Some []"
    by (simp_all add: example_health_cfg_def)
  have i: "health (ManagedServer_init example_health_cfg) = ok"
      "cfg (ManagedServer_init example_health_cfg) = example_health_cfg"
      "cfg_id example_health_cfg = ''a''"
    by (simp_all add: ManagedServer_init_def example_health_cfg_def example_cfg_def)
  have p: "\<not> http_ok probes_http_down" "port_open probes_http_down" "http_ok probes_up" "port_open probes_up"
    by (simp_all add: probes_up_def probes_http_down_def)
  let ?s = "ManagedServer_init example_health_cfg"
  let ?prs = "[probes_http_down, probes_http_down, probes_up, probes_up, probes_http_down]"
  note down = tick_health_events [of example_health_cfg probes_http_down ?s example_world ?prs]
  note up = tick_health_events [of example_health_cfg probes_up ?s example_world "[]"]
  have d: "compute_health example_health_cfg probes_http_down = fail"
    using down c p by simp
  have u: "compute_health example_health_cfg probes_up = ok"
    using up c p by simp
  have one: "emitted example_world (snd (snd (tick_health probes_http_down ?s example_world)))
      = [\<lparr>event_type = ''health'', ts = clock example_world (reads example_world),
          server_id = Some ''a'', data = [(''health'', PyStr ''fail'')]\<rparr>]"
    using down by (simp add: case_prod_beta i d del: health_ticks.simps)
  have many: "map (\<lambda>e. (event_type e, server_id e, data e))
      (emitted example_world (snd (health_ticks ?prs ?s example_world)))
      = map (\<lambda>h. (''health'', Some ''a'', [(''health'', PyStr (health_value h))]))
          (changes ok (map (compute_health example_health_cfg) ?prs))"
    using down by (simp add: case_prod_beta i del: health_ticks.simps)
  show ?thesis
    using c d u one many by simp
qed

section \<open>The supervision tick\<close>

lemma tick_crashed:
  assumes "\<not> is_running (proc s)" "exit_code (proc s) = Some code" "code \<noteq> 0"
    and "restart_policy (cfg s) \<noteq> ''never''"
  shows "tick_supervisor s w =
     (if int (length (kept s w)) < max_restart_per_minute (cfg s)
      then start ''auto_restart''
             (s\<lparr>status := crashed, status_log := status_log s @ [crashed],
                restart_times := kept s w @ [clock w (Suc (Suc (reads w)))]\<rparr>)
             (w\<lparr>event_q := event_q w @ [crash_event s (clock w (reads w)) code],
                reads := Suc (Suc (Suc (reads w)))\<rparr>)
      else (Returned,
            s\<lparr>status := crashed, status_log := status_log s @ [crashed], restart_times := kept s w\<rparr>,
            w\<lparr>event_q := event_q w @ [crash_event s (clock w (reads w)) code,
                                      warn_event s (clock w (Suc (Suc (reads w))))],
              reads := Suc (Suc (Suc (reads w)))\<rparr>))"
  using assms
  by (simp add: tick_supervisor_def allow_restart_def now_def Let_def set_status_def emit_eq
      crash_event_def warn_event_def kept_def)

lemma tick_never:
  assumes "\<not> is_running (proc s)" "exit_code (proc s) = Some code" "code \<noteq> 0"
    and "restart_policy (cfg s) = ''never''"
  shows "tick_supervisor s w =
     (Returned, s\<lparr>status := crashed, status_log := status_log s @ [crashed]\<rparr>,
      w\<lparr>event_q := event_q w @ [crash_event s (clock w (reads w)) code],
        reads := Suc (reads w)\<rparr>)"
  using assms
  by (simp add: tick_supervisor_def Let_def set_status_def emit_eq crash_event_def)

lemma exit_code_not_running: "exit_code p = Some c \<Longrightarrow> \<not> is_running p"
  by (auto simp: is_running_def exit_code_def split: option.splits)

lemma tick_exit_zero:
  assumes "exit_code (proc s) = Some 0"
  shows "tick_supervisor s w =
           (Returned, s\<lparr>status := stopped, status_log := status_log s @ [stopped]\<rparr>, w)"
  using assms exit_code_not_running [OF assms]
  by (simp add: tick_supervisor_def set_status_def)

lemma tick_idle:
  assumes "is_running (proc s) \<or> exit_code (proc s) = None"
  shows "tick_supervisor s w = (Returned, s, w)"
  using assms by (auto simp: tick_supervisor_def)

lemma with_policy_updates:
  "(with_policy p s)\<lparr>status := a, status_log := b, restart_times := c\<rparr>
     = with_policy p (s\<lparr>status := a, status_log := b, restart_times := c\<rparr>)"
  by (cases s) (simp add: with_policy_def)

lemma with_policy_simps:
  "cfg (with_policy p s) = (cfg s)\<lparr>restart_policy := p\<rparr>"
  "proc (with_policy p s) = proc s"
  "status_log (with_policy p s) = status_log s"
  "restart_times (with_policy p s) = restart_times s"
  by (simp_all add: with_policy_def)

lemma start_with_policy:
  "start reason (with_policy p s) w =
     (case start reason s w of (r, s', w') \<Rightarrow> (r, with_policy p s', w'))"
  by (cases "is_running (proc s)")
     (simp_all add: start_running_noop start_not_running with_policy_def status_event_def)

lemma tick_policy_irrelevant:
  assumes "restart_policy (cfg s) \<noteq> ''never''" "p \<noteq> ''never''"
  shows "tick_supervisor (with_policy p s) w =
     (case tick_supervisor s w of (r, s', w') \<Rightarrow> (r, with_policy p s', w'))"
proof (cases "is_running (proc s) \<or> exit_code (proc s) = None")
  case True
  then show ?thesis by (simp add: tick_idle with_policy_def)
next
  case False
  then obtain code where c: "\<not> is_running (proc s)" "exit_code (proc s) = Some code" by auto
  show ?thesis
  proof (cases "code = 0")
    case True
    with c show ?thesis by (simp add: tick_exit_zero with_policy_def)
  next
    case False
    have k: "kept (with_policy p s) w = kept s w" by (simp add: kept_def with_policy_def)
    have e: "crash_event (with_policy p s) t code = crash_event s t code"
      "warn_event (with_policy p s) t = warn_event s t" for t
      by (simp_all add: with_policy_def crash_event_def warn_event_def)
    have "tick_supervisor (with_policy p s) w =
       (if int (length (kept s w)) < max_restart_per_minute (cfg s)
        then start ''auto_restart''
             (with_policy p (s\<lparr>status := crashed, status_log := status_log s @ [crashed],
                restart_times := kept s w @ [clock w (Suc (Suc (reads w)))]\<rparr>))
             (w\<lparr>event_q := event_q w @ [crash_event s (clock w (reads w)) code],
                reads := Suc (Suc (Suc (reads w)))\<rparr>)
        else (Returned,
            with_policy p (s\<lparr>status := crashed, status_log := status_log s @ [crashed],
                             restart_times := kept s w\<rparr>),
            w\<lparr>event_q := event_q w @ [crash_event s (clock w (reads w)) code,
                                      warn_event s (clock w (Suc (Suc (reads w))))],
              reads := Suc (Suc (Suc (reads w)))\<rparr>))"
      using c False assms(2)
      by (subst tick_crashed [where code = code])
         (simp_all add: with_policy_simps k e with_policy_updates)
    then show ?thesis
      using c False assms(1) by (simp add: tick_crashed [where code = code] start_with_policy)
  qed
qed


lemma example_crashed_eq:
  "example_crashed =
     \<lparr>cfg = example_cfg, proc = Some \<lparr>pid = 0, returncode = Some 1\<rparr>, status = running,
      health = ok, restart_times = [], status_log = [starting, running]\<rparr>"
  by (simp add: example_crashed_def start_not_running ManagedServer_init_def is_running_def
      example_world_def process_exits_def)

lemma example_crashed_world_eq:
  "example_crashed_world =
     \<lparr>event_q = [status_event example_crashed 1000 starting ''boot'',
                 status_event example_crashed 1001 running ''boot''],
      clock = (\<lambda>n. 1000 + real n), reads = 2, spawn_ok = (\<lambda>n. True),
      spawned = [\<lparr>argv = [''./run''], cwd = ''/srv/a'', envp = []\<rparr>], environ = [],
      exit_on_stop = (\<lambda>p. - 15)\<rparr>"
  by (simp add: example_crashed_world_def start_not_running ManagedServer_init_def is_running_def
      example_world_def status_event_def example_crashed_eq example_cfg_def dict_update_def)

text \<open>
  C3. A server with restart policy \<^verbatim>\<open>always\<close> and \<^verbatim>\<open>max_restart_per_minute\<close> 6 whose process
  has exited with code 1: when fewer than six restart timestamps lie in the trailing 60
  seconds (none does after the first start) and the spawn succeeds, \<^verbatim>\<open>tick_supervisor\<close>
  assigns the status \<open>crashed\<close>, then \<open>starting\<close>, then \<open>running\<close>, and puts on the queue
  one \<^verbatim>\<open>crash\<close> event carrying the exit code followed by two \<^verbatim>\<open>status\<close> events
  (starting, running), and nothing else.
\<close>

theorem tick_restarts_crashed:
  assumes "restart_policy (cfg s) = ''always''" and "max_restart_per_minute (cfg s) = 6"
    and "exit_code (proc s) = Some 1"
    and "length (kept s w) < 6"
    and "spawn_ok w (length (spawned w))"
  shows "case tick_supervisor s w of
           (r, s', w') \<Rightarrow>
             r = Returned \<and> status s' = running \<and> is_running (proc s') \<and>
             status_log s' = status_log s @ [crashed, starting, running] \<and>
             event_q w' = event_q w @ emitted w w' \<and>
             emitted w w' =
               [crash_event s (clock w (reads w)) 1,
                status_event s (clock w (reads w + 3)) starting ''auto_restart'',
                status_event s (clock w (reads w + 4)) running ''auto_restart'']"
proof -
  have nr: "\<not> is_running (proc s)"
    using assms(3) by (rule exit_code_not_running)
  have "tick_supervisor s w =
          start ''auto_restart''
             (s\<lparr>status := crashed, status_log := status_log s @ [crashed],
                restart_times := kept s w @ [clock w (Suc (Suc (reads w)))]\<rparr>)
             (w\<lparr>event_q := event_q w @ [crash_event s (clock w (reads w)) 1],
                reads := Suc (Suc (Suc (reads w)))\<rparr>)"
    using assms nr by (simp add: tick_crashed [where code = 1])
  then show ?thesis
    using assms(5) nr
    by (simp add: start_not_running emitted_def is_running_def status_event_def
        eval_nat_numeral)
qed

theorem tick_restarts_crashed_witness:
  "restart_policy (cfg example_crashed) = ''always'' \<and>
   max_restart_per_minute (cfg example_crashed) = 6 \<and>
   exit_code (proc example_crashed) = Some 1 \<and>
   length (kept example_crashed example_crashed_world) < 6 \<and>
   spawn_ok example_crashed_world (length (spawned example_crashed_world)) \<and>
   fst (tick_supervisor example_crashed example_crashed_world) = Returned \<and>
   status (fst (snd (tick_supervisor example_crashed example_crashed_world))) = running \<and>
   status_log (fst (snd (tick_supervisor example_crashed example_crashed_world)))
     = [starting, running, crashed, starting, running] \<and>
   emitted example_crashed_world (snd (snd (tick_supervisor example_crashed example_crashed_world)))
     = [crash_event example_crashed 1002 1,
        status_event example_crashed 1005 starting ''auto_restart'',
        status_event example_crashed 1006 running ''auto_restart'']"
proof -
  have h: "restart_policy (cfg example_crashed) = ''always''"
      "max_restart_per_minute (cfg example_crashed) = 6"
      "exit_code (proc example_crashed) = Some 1"
      "length (kept example_crashed example_crashed_world) < 6"
      "spawn_ok example_crashed_world (length (spawned example_crashed_world))"
    by (simp_all add: example_crashed_eq example_crashed_world_eq example_cfg_def exit_code_def
        kept_def)
  have l: "status_log example_crashed = [starting, running]"
      "clock example_crashed_world = (\<lambda>n. 1000 + real n)" "reads example_crashed_world = 2"
    by (simp_all add: example_crashed_eq example_crashed_world_eq)
  from tick_restarts_crashed [OF h] show ?thesis
    using h by (simp add: case_prod_beta l)
qed

section \<open>Starting all servers\<close>

text \<open>
  C1 does not hold of the code. \<^verbatim>\<open>start_all\<close> calls \<^verbatim>\<open>s.start\<close> with no exception handler
  (the loop of \<^verbatim>\<open>PolarManager.loop\<close> has one), so the exception of a failed spawn leaves
  the loop. With servers \<open>a\<close> and \<open>b\<close> and a failing first spawn: \<^verbatim>\<open>start_all\<close> raises,
  \<open>b\<close> is still the freshly initialised server, the only spawn call and the only event
  are those of \<open>a\<close>, although starting \<open>b\<close> afterwards would succeed.
\<close>

theorem start_all_aborts_at_first_failure:
  "fst (start_all (PolarManager_init example_app) example_failing_world) = Raised OSError \<and>
   map_of (manager_servers (fst (snd (start_all (PolarManager_init example_app) example_failing_world)))) ''b''
     = Some (ManagedServer_init (example_cfg\<lparr>cfg_id := ''b'', name := ''beta''\<rparr>)) \<and>
   length (spawned (snd (snd (start_all (PolarManager_init example_app) example_failing_world)))) = 1 \<and>
   map server_id (event_q (snd (snd (start_all (PolarManager_init example_app) example_failing_world))))
     = [Some ''a''] \<and>
   fst (start ''boot'' (ManagedServer_init (example_cfg\<lparr>cfg_id := ''b'', name := ''beta''\<rparr>))
          (snd (snd (start_all (PolarManager_init example_app) example_failing_world)))) = Returned"
proof -
  have nr: "\<not> is_running (proc (ManagedServer_init c))" for c
    by (simp add: ManagedServer_init_def is_running_def)
  have m: "manager_servers (PolarManager_init example_app) =
      [(''a'', ManagedServer_init example_cfg),
       (''b'', ManagedServer_init (example_cfg\<lparr>cfg_id := ''b'', name := ''beta''\<rparr>))]"
    by (simp add: PolarManager_init_def example_app_def py_slice_to_def example_cfg_def)
  show ?thesis
    by (simp add: start_all_def m start_not_running is_running_def example_failing_world_def
        example_world_def status_event_def ManagedServer_init_def example_cfg_def)
qed


section \<open>Restart policies\<close>

text \<open>
  C10. For every policy string other than \<^verbatim>\<open>never\<close> the tick behaves in the same way:
  replacing one such policy by another changes nothing of the result but the policy
  itself, and after a non-zero exit the restart is attempted iff the rate limiter allows
  it (otherwise the \<^verbatim>\<open>warn\<close> event is emitted). With the policy \<^verbatim>\<open>never\<close> a non-zero exit
  gives the status \<open>crashed\<close> and the \<^verbatim>\<open>crash\<close> event only. An exit with code 0 gives the
  status \<open>stopped\<close> and leaves the world as it is (no event, no spawn), whatever
  the policy.
\<close>

theorem tick_supervisor_policy:
  "(restart_policy (cfg s) \<noteq> ''never'' \<and> p \<noteq> ''never'' \<longrightarrow>
      tick_supervisor (with_policy p s) w =
        (case tick_supervisor s w of (r, s', w') \<Rightarrow> (r, with_policy p s', w'))) \<and>
   (exit_code (proc s) = Some code \<and> code \<noteq> 0 \<and> restart_policy (cfg s) \<noteq> ''never'' \<longrightarrow>
      tick_supervisor s w =
        (if int (length (kept s w)) < max_restart_per_minute (cfg s)
         then start ''auto_restart''
                (s\<lparr>status := crashed, status_log := status_log s @ [crashed],
                   restart_times := kept s w @ [clock w (Suc (Suc (reads w)))]\<rparr>)
                (w\<lparr>event_q := event_q w @ [crash_event s (clock w (reads w)) code],
                   reads := Suc (Suc (Suc (reads w)))\<rparr>)
         else (Returned,
               s\<lparr>status := crashed, status_log := status_log s @ [crashed],
                 restart_times := kept s w\<rparr>,
               w\<lparr>event_q := event_q w @ [crash_event s (clock w (reads w)) code,
                                         warn_event s (clock w (Suc (Suc (reads w))))],
                 reads := Suc (Suc (Suc (reads w)))\<rparr>))) \<and>
   (exit_code (proc s) = Some code \<and> code \<noteq> 0 \<and> restart_policy (cfg s) = ''never'' \<longrightarrow>
      tick_supervisor s w =
        (Returned, s\<lparr>status := crashed, status_log := status_log s @ [crashed]\<rparr>,
         w\<lparr>event_q := event_q w @ [crash_event s (clock w (reads w)) code],
           reads := Suc (reads w)\<rparr>)) \<and>
   (exit_code (proc s) = Some 0 \<longrightarrow>
      tick_supervisor s w =
        (Returned, s\<lparr>status := stopped, status_log := status_log s @ [stopped]\<rparr>, w))"
  using tick_policy_irrelevant [of s p w] tick_crashed [of s code w] tick_never [of s code w]
    tick_exit_zero [of s w] exit_code_not_running [of "proc s" code]
  by blast

theorem tick_supervisor_policy_witness:
  "restart_policy (cfg example_crashed) \<noteq> ''never'' \<and> ''on-failure'' \<noteq> ''never'' \<and>
   ''sometimes'' \<noteq> ''never'' \<and>
   exit_code (proc example_crashed) = Some 1 \<and>
   tick_supervisor (with_policy ''on-failure'' example_crashed) example_crashed_world =
     (fst (tick_supervisor example_crashed example_crashed_world),
      with_policy ''on-failure'' (fst (snd (tick_supervisor example_crashed example_crashed_world))),
      snd (snd (tick_supervisor example_crashed example_crashed_world))) \<and>
   tick_supervisor (with_policy ''sometimes'' example_crashed) example_crashed_world =
     (fst (tick_supervisor example_crashed example_crashed_world),
      with_policy ''sometimes'' (fst (snd (tick_supervisor example_crashed example_crashed_world))),
      snd (snd (tick_supervisor example_crashed example_crashed_world))) \<and>
   length (spawned (snd (snd (tick_supervisor example_crashed example_crashed_world)))) = 2 \<and>
   restart_policy (cfg (with_policy ''never'' example_crashed)) = ''never'' \<and>
   exit_code (proc (with_policy ''never'' example_crashed)) = Some 1 \<and>
   emitted example_crashed_world
     (snd (snd (tick_supervisor (with_policy ''never'' example_crashed) example_crashed_world)))
     = [crash_event example_crashed 1002 1] \<and>
   length (spawned
     (snd (snd (tick_supervisor (with_policy ''never'' example_crashed) example_crashed_world)))) = 1 \<and>
   exit_code (proc (example_crashed\<lparr>proc := Some \<lparr>pid = 0, returncode = Some 0\<rparr>\<rparr>)) = Some 0 \<and>
   tick_supervisor (example_crashed\<lparr>proc := Some \<lparr>pid = 0, returncode = Some 0\<rparr>\<rparr>)
       example_crashed_world =
     (Returned,
      example_crashed\<lparr>proc := Some \<lparr>pid = 0, returncode = Some 0\<rparr>, status := stopped,
                       status_log := [starting, running, stopped]\<rparr>,
      example_crashed_world)"
proof -
  let ?s = example_crashed and ?w = example_crashed_world
  let ?n = "with_policy ''never'' example_crashed"
  let ?z = "example_crashed\<lparr>proc := Some \<lparr>pid = 0, returncode = Some 0\<rparr>\<rparr>"
  have h: "restart_policy (cfg ?s) \<noteq> ''never''" "''on-failure'' \<noteq> ''never''"
      "''sometimes'' \<noteq> ''never''" "exit_code (proc ?s) = Some 1" "(1::int) \<noteq> 0"
      "restart_policy (cfg ?n) = ''never''" "exit_code (proc ?n) = Some 1"
      "exit_code (proc ?z) = Some 0"
    by (simp_all add: example_crashed_eq example_cfg_def exit_code_def with_policy_def)
  have v: "int (length (kept ?s ?w)) < max_restart_per_minute (cfg ?s)"
      "spawn_ok ?w (length (spawned ?w))" "length (spawned ?w) = 1"
      "status_log ?s = [starting, running]" "reads ?w = 2" "event_q ?w \<noteq> []"
      "clock ?w = (\<lambda>n. 1000 + real n)"
    by (simp_all add: example_crashed_eq example_crashed_world_eq example_cfg_def kept_def)
  note a = tick_supervisor_policy [of ?s "''on-failure''" ?w 1]
  note b = tick_supervisor_policy [of ?s "''sometimes''" ?w 1]
  note c = tick_supervisor_policy [of ?n "''always''" ?w 1]
  note d = tick_supervisor_policy [of ?z "''always''" ?w 1]
  have 1: "tick_supervisor (with_policy ''on-failure'' ?s) ?w =
     (fst (tick_supervisor ?s ?w), with_policy ''on-failure'' (fst (snd (tick_supervisor ?s ?w))),
      snd (snd (tick_supervisor ?s ?w)))"
    using a h by (simp add: case_prod_beta)
  have 2: "tick_supervisor (with_policy ''sometimes'' ?s) ?w =
     (fst (tick_supervisor ?s ?w), with_policy ''sometimes'' (fst (snd (tick_supervisor ?s ?w))),
      snd (snd (tick_supervisor ?s ?w)))"
    using b h by (simp add: case_prod_beta)
  have nr: "\<not> is_running (proc ?s)"
    using h(4) by (rule exit_code_not_running)
  have 3: "length (spawned (snd (snd (tick_supervisor ?s ?w)))) = 2"
    using a h v nr by (simp add: start_not_running)
  have 4: "tick_supervisor ?n ?w =
        (Returned, ?n\<lparr>status := crashed, status_log := status_log ?n @ [crashed]\<rparr>,
         ?w\<lparr>event_q := event_q ?w @ [crash_event ?n (clock ?w (reads ?w)) 1],
           reads := Suc (reads ?w)\<rparr>)"
    using c h by simp
  have 5: "emitted ?w (snd (snd (tick_supervisor ?n ?w))) = [crash_event ?s 1002 1]"
    unfolding 4 using v by (simp add: emitted_def crash_event_def with_policy_def)
  have 6: "length (spawned (snd (snd (tick_supervisor ?n ?w)))) = 1"
    unfolding 4 using v by simp
  have 7: "tick_supervisor ?z ?w =
     (Returned, ?z\<lparr>status := stopped, status_log := [starting, running, stopped]\<rparr>, ?w)"
    using d h v by simp
  show ?thesis
    using h 1 2 3 5 6 7 by simp
qed

section \<open>The restart rate limiter\<close>

lemma event_kinds [simp]:
  "\<not> is_auto_restart_start (crash_event s t c)"
  "\<not> is_rate_limit_warn (crash_event s t c)"
  "\<not> is_auto_restart_start (warn_event s t)"
  "is_rate_limit_warn (warn_event s t)"
  "is_auto_restart_start (status_event s t starting ''auto_restart'')"
  "\<not> is_auto_restart_start (status_event s t running reason)"
  "\<not> is_rate_limit_warn (status_event s t st reason)"
  by (simp_all add: is_auto_restart_start_def is_rate_limit_warn_def crash_event_def
      warn_event_def status_event_def)

lemma process_exits_crashed:
  assumes "p \<noteq> None" "exit_code p \<noteq> Some 0" "c \<noteq> 0"
  shows "\<exists>c'. c' \<noteq> 0 \<and> exit_code (process_exits c p) = Some c'"
  using assms by (auto simp: exit_code_def process_exits_def split: option.splits)

lemma tick_crashed_shape:
  assumes "exit_code (proc s) = Some code" "code \<noteq> 0" "restart_policy (cfg s) \<noteq> ''never''"
    and "tick_supervisor s w = (r, s', w')"
  shows "cfg s' = cfg s \<and> proc s' \<noteq> None \<and> exit_code (proc s') \<noteq> Some 0 \<and>
         clock w' = clock w \<and> reads w + 3 \<le> reads w' \<and>
         event_q w' = event_q w @ emitted w w' \<and>
         (if int (length (kept s w)) < max_restart_per_minute (cfg s)
          then restart_times s' = kept s w @ [clock w (reads w + 2)] \<and>
               length (spawned w') = Suc (length (spawned w)) \<and>
               length (filter is_auto_restart_start (emitted w w')) = 1 \<and>
               length (filter is_rate_limit_warn (emitted w w')) = 0
          else restart_times s' = kept s w \<and> spawned w' = spawned w \<and>
               length (filter is_auto_restart_start (emitted w w')) = 0 \<and>
               length (filter is_rate_limit_warn (emitted w w')) = 1)"
proof -
  have nr: "\<not> is_running (proc s)"
    using assms(1) by (rule exit_code_not_running)
  have pn: "proc s \<noteq> None"
    using assms(1) by (auto simp: exit_code_def split: option.splits)
  show ?thesis
  proof (cases "int (length (kept s w)) < max_restart_per_minute (cfg s)")
    case True
    with assms nr have "start ''auto_restart''
             (s\<lparr>status := crashed, status_log := status_log s @ [crashed],
                restart_times := kept s w @ [clock w (Suc (Suc (reads w)))]\<rparr>)
             (w\<lparr>event_q := event_q w @ [crash_event s (clock w (reads w)) code],
                reads := Suc (Suc (Suc (reads w)))\<rparr>) = (r, s', w')"
      by (simp add: tick_crashed [where code = code])
    with True nr pn assms(1,2) show ?thesis
      by (auto simp: start_not_running emitted_def status_event_def [symmetric]
          exit_code_def eval_nat_numeral split: if_splits)
  next
    case False
    with assms nr pn show ?thesis
      by (auto simp: tick_crashed [where code = code] emitted_def eval_nat_numeral)
  qed
qed


lemma emitted_append:
  assumes "event_q w1 = event_q w @ emitted w w1" and "event_q w2 = event_q w1 @ emitted w1 w2"
  shows "emitted w w2 = emitted w w1 @ emitted w1 w2"
    and "event_q w2 = event_q w @ emitted w w2"
proof -
  have "event_q w2 = event_q w @ (emitted w w1 @ emitted w1 w2)"
    using assms by (metis append.assoc)
  then show "emitted w w2 = emitted w w1 @ emitted w1 w2"
    by (simp add: emitted_def [of w w2])
  then show "event_q w2 = event_q w @ emitted w w2"
    using \<open>event_q w2 = event_q w @ (emitted w w1 @ emitted w1 w2)\<close> by simp
qed

lemma kept_window:
  fixes T :: real
  assumes "\<forall>t \<in> set (restart_times s). T \<le> t \<or> t < T - 60"
    and "T \<le> clock w (Suc (reads w))" and "clock w (Suc (reads w)) \<le> T + 60"
  shows "kept s w = filter (\<lambda>t. T \<le> t) (restart_times s)"
  unfolding kept_def
proof (rule filter_cong [OF refl])
  fix t assume "t \<in> set (restart_times s)"
  with assms show "(clock w (Suc (reads w)) - 60 \<le> t) = (T \<le> t)"
    by fastforce
qed

lemma tick_reads_mono: "tick_supervisor s w = (r, s', w') \<Longrightarrow> reads w \<le> reads w'"
  by (auto simp: tick_supervisor_def allow_restart_def now_def Let_def emit_eq start_def
      proc_start_def split: if_splits option.splits prod.splits outcome.splits)

lemma crash_ticks_reads_mono: "reads w \<le> reads (snd (crash_ticks cs s w))"
proof (induction cs arbitrary: s w)
  case Nil
  then show ?case by simp
next
  case (Cons c cs)
  obtain r s1 w1 where t: "tick_supervisor (s\<lparr>proc := process_exits c (proc s)\<rparr>) w = (r, s1, w1)"
    by (cases "tick_supervisor (s\<lparr>proc := process_exits c (proc s)\<rparr>) w") auto
  from tick_reads_mono [OF t] Cons.IH [of w1 s1] t show ?case
    by simp
qed

lemma crash_ticks_count:
  fixes T :: real
  assumes "\<forall>c \<in> set cs. c \<noteq> 0"
    and "restart_policy (cfg s) \<noteq> ''never''"
    and "proc s \<noteq> None" and "exit_code (proc s) \<noteq> Some 0"
    and "\<forall>t \<in> set (restart_times s). T \<le> t \<or> t < T - 60"
    and "crash_ticks cs s w = (s', w')"
    and "\<forall>n. reads w \<le> n \<and> n < reads w' \<longrightarrow> T \<le> clock w n \<and> clock w n \<le> T + 60"
  shows "cfg s' = cfg s \<and> proc s' \<noteq> None \<and> exit_code (proc s') \<noteq> Some 0 \<and>
     clock w' = clock w \<and> reads w \<le> reads w' \<and> event_q w' = event_q w @ emitted w w' \<and>
     length (filter is_auto_restart_start (emitted w w')) =
       min (length cs)
         (nat (max_restart_per_minute (cfg s) - int (length (filter (\<lambda>t. T \<le> t) (restart_times s))))) \<and>
     length (filter is_rate_limit_warn (emitted w w')) =
       length cs -
         nat (max_restart_per_minute (cfg s) - int (length (filter (\<lambda>t. T \<le> t) (restart_times s)))) \<and>
     length (spawned w') = length (spawned w) +
       min (length cs)
         (nat (max_restart_per_minute (cfg s) - int (length (filter (\<lambda>t. T \<le> t) (restart_times s))))) \<and>
     (cs \<noteq> [] \<longrightarrow>
        length (restart_times s') = length (filter (\<lambda>t. T \<le> t) (restart_times s)) +
          min (length cs)
            (nat (max_restart_per_minute (cfg s) - int (length (filter (\<lambda>t. T \<le> t) (restart_times s))))) \<and>
        (\<forall>t \<in> set (restart_times s'). T \<le> t))"
  using assms
proof (induction cs arbitrary: s w)
  case Nil
  then show ?case by (simp add: emitted_def)
next
  case (Cons c cs)
  let ?s0 = "s\<lparr>proc := process_exits c (proc s)\<rparr>"
  define L where "L = filter (\<lambda>t. T \<le> t) (restart_times s)"
  define m where "m = max_restart_per_minute (cfg s)"
  from Cons.prems(1) have c0: "c \<noteq> 0" and cs0: "\<forall>c \<in> set cs. c \<noteq> 0"
    by simp_all
  from process_exits_crashed [OF Cons.prems(3,4) c0]
  obtain c' where c': "c' \<noteq> 0" "exit_code (proc ?s0) = Some c'"
    by auto
  obtain r s1 w1 where tick: "tick_supervisor ?s0 w = (r, s1, w1)"
    by (cases "tick_supervisor ?s0 w") auto
  with Cons.prems(6) have rest: "crash_ticks cs s1 w1 = (s', w')"
    by simp
  have pol0: "restart_policy (cfg ?s0) \<noteq> ''never''"
    using Cons.prems(2) by simp
  note shape = tick_crashed_shape [OF c'(2) c'(1) pol0 tick]
  then have s1: "cfg s1 = cfg s" "proc s1 \<noteq> None" "exit_code (proc s1) \<noteq> Some 0"
      "clock w1 = clock w" "reads w + 3 \<le> reads w1" "event_q w1 = event_q w @ emitted w w1"
    by simp_all
  have k0: "kept ?s0 w = kept s w"
    by (simp add: kept_def)
  have mono: "reads w1 \<le> reads w'"
    using crash_ticks_reads_mono [of w1 cs s1] rest by simp
  have win1: "\<forall>n. reads w1 \<le> n \<and> n < reads w' \<longrightarrow> T \<le> clock w1 n \<and> clock w1 n \<le> T + 60"
    using Cons.prems(7) s1(4,5) by auto
  have w_allow: "T \<le> clock w (Suc (reads w))" "clock w (Suc (reads w)) \<le> T + 60"
    and w_stamp: "T \<le> clock w (reads w + 2)"
    using Cons.prems(7) s1(5) mono by auto
  have kL: "kept s w = L"
    unfolding L_def by (rule kept_window [OF Cons.prems(5) w_allow])
  have cfg0: "cfg ?s0 = cfg s" by simp
  show ?case
  proof (cases "int (length L) < m")
    case True
    with shape have a: "restart_times s1 = L @ [clock w (reads w + 2)]"
        "length (spawned w1) = Suc (length (spawned w))"
        "length (filter is_auto_restart_start (emitted w w1)) = 1"
        "length (filter is_rate_limit_warn (emitted w w1)) = 0"
      by (simp_all add: k0 kL m_def)
    have all1: "\<forall>t \<in> set (restart_times s1). T \<le> t"
      using a(1) w_stamp by (auto simp: L_def)
    then have inv1: "\<forall>t \<in> set (restart_times s1). T \<le> t \<or> t < T - 60"
      by blast
    have f1: "filter (\<lambda>t. T \<le> t) (restart_times s1) = restart_times s1"
      using all1 by simp
    have pol1: "restart_policy (cfg s1) \<noteq> ''never''"
      using Cons.prems(2) s1(1) by simp
    note ih = Cons.IH [OF cs0 pol1 s1(2,3) inv1 rest win1]
    note em = emitted_append [OF s1(6), of w'] 
    from ih have e2: "event_q w' = event_q w1 @ emitted w1 w'" by simp
    have n1: "nat (m - int (length (restart_times s1))) = nat (m - int (length L)) - 1"
      using a(1) by simp
    have pos: "0 < nat (m - int (length L))"
      using True by simp
    show ?thesis
      using ih em [OF e2] a all1 s1 n1 pos rest
      by (cases "cs = []") (auto simp: f1 L_def [symmetric] m_def [symmetric] min_def)
  next
    case False
    with shape have a: "restart_times s1 = L" "spawned w1 = spawned w"
        "length (filter is_auto_restart_start (emitted w w1)) = 0"
        "length (filter is_rate_limit_warn (emitted w w1)) = 1"
      by (simp_all add: k0 kL m_def)
    have all1: "\<forall>t \<in> set (restart_times s1). T \<le> t"
      using a(1) by (auto simp: L_def)
    then have inv1: "\<forall>t \<in> set (restart_times s1). T \<le> t \<or> t < T - 60"
      by blast
    have f1: "filter (\<lambda>t. T \<le> t) (restart_times s1) = restart_times s1"
      using all1 by simp
    have pol1: "restart_policy (cfg s1) \<noteq> ''never''"
      using Cons.prems(2) s1(1) by simp
    note ih = Cons.IH [OF cs0 pol1 s1(2,3) inv1 rest win1]
    note em = emitted_append [OF s1(6), of w']
    from ih have e2: "event_q w' = event_q w1 @ emitted w1 w'" by simp
    have z: "nat (m - int (length L)) = 0"
      using False by simp
    show ?thesis
      using ih em [OF e2] a all1 s1 z rest
      by (cases "cs = []") (auto simp: f1 L_def [symmetric] m_def [symmetric])
  qed
qed


lemma min_kept_pruned:
  assumes "restart_times s \<noteq> []"
    and "Min (set (restart_times s)) + 60 < clock w (Suc (reads w))"
  shows "Min (set (restart_times s)) \<notin> set (kept s w)"
    and "length (kept s w) < length (restart_times s)"
proof -
  have m: "Min (set (restart_times s)) \<in> set (restart_times s)"
    using assms(1) by (simp add: Min_in)
  show "Min (set (restart_times s)) \<notin> set (kept s w)"
    using assms(2) by (simp add: kept_def)
  with m show "length (kept s w) < length (restart_times s)"
    unfolding kept_def by (metis (no_types, lifting) length_filter_less mem_Collect_eq set_filter)
qed

text \<open>
  C2. A started server with \<^verbatim>\<open>max_restart_per_minute\<close> = 3 and a restart policy other than
  \<^verbatim>\<open>never\<close>, none of whose recorded restarts lies in the 60 seconds before the window
  \<open>[T, T + 60]\<close>: if four ticks in a row find the process exited with a non-zero code and
  every clock reading of these ticks lies in the window, then exactly three
  \<^verbatim>\<open>start(reason="auto_restart")\<close> calls are made (three starting events with that reason,
  three spawn calls) and exactly one rate-limit \<^verbatim>\<open>warn\<close> is emitted, and three timestamps
  are recorded. When afterwards the rate limiter of a tick reads a time more than 60
  seconds after the earliest of them, that timestamp is pruned and the crash is answered
  by a restart again, with no \<^verbatim>\<open>warn\<close>. (A timestamp exactly 60 seconds old is kept: the
  source keeps \<^verbatim>\<open>t >= now - 60\<close>.)
\<close>

theorem rate_limit_window:
  fixes T :: real
  assumes "max_restart_per_minute (cfg s) = 3" and "restart_policy (cfg s) \<noteq> ''never''"
    and "proc s \<noteq> None" and "exit_code (proc s) \<noteq> Some 0"
    and "\<forall>t \<in> set (restart_times s). t < T - 60"
    and "c1 \<noteq> 0" and "c2 \<noteq> 0" and "c3 \<noteq> 0" and "c4 \<noteq> 0" and "c5 \<noteq> 0"
    and "crash_ticks [c1, c2, c3, c4] s w = (s', w')"
    and "\<forall>n. reads w \<le> n \<and> n < reads w' \<longrightarrow> T \<le> clock w n \<and> clock w n \<le> T + 60"
  shows "event_q w' = event_q w @ emitted w w' \<and>
     length (filter is_auto_restart_start (emitted w w')) = 3 \<and>
     length (filter is_rate_limit_warn (emitted w w')) = 1 \<and>
     length (spawned w') = length (spawned w) + 3 \<and>
     length (restart_times s') = 3 \<and>
     (Min (set (restart_times s')) + 60 < clock w' (Suc (reads w')) \<longrightarrow>
        (case tick_supervisor (s'\<lparr>proc := process_exits c5 (proc s')\<rparr>) w' of
           (r, s'', w'') \<Rightarrow>
             Min (set (restart_times s')) \<notin> set (kept s' w') \<and>
             restart_times s'' = kept s' w' @ [clock w' (reads w' + 2)] \<and>
             length (filter is_auto_restart_start (emitted w' w'')) = 1 \<and>
             length (filter is_rate_limit_warn (emitted w' w'')) = 0 \<and>
             length (spawned w'') = Suc (length (spawned w'))))"
proof -
  have nz: "\<forall>c \<in> set [c1, c2, c3, c4]. c \<noteq> 0"
    using assms(6-9) by simp
  have inv: "\<forall>t \<in> set (restart_times s). T \<le> t \<or> t < T - 60"
    using assms(5) by blast
  have none: "filter (\<lambda>t. T \<le> t) (restart_times s) = []"
    using assms(5) by (auto simp: filter_empty_conv)
  note run = crash_ticks_count [OF nz assms(2,3,4) inv assms(11,12)]
  from run have four: "event_q w' = event_q w @ emitted w w'"
      "length (filter is_auto_restart_start (emitted w w')) = 3"
      "length (filter is_rate_limit_warn (emitted w w')) = 1"
      "length (spawned w') = length (spawned w) + 3"
      "length (restart_times s') = 3"
    by (simp_all add: none assms(1))
  from run have s': "cfg s' = cfg s" "proc s' \<noteq> None" "exit_code (proc s') \<noteq> Some 0"
    by simp_all
  have fifth: "case tick_supervisor (s'\<lparr>proc := process_exits c5 (proc s')\<rparr>) w' of
           (r, s'', w'') \<Rightarrow>
             Min (set (restart_times s')) \<notin> set (kept s' w') \<and>
             restart_times s'' = kept s' w' @ [clock w' (reads w' + 2)] \<and>
             length (filter is_auto_restart_start (emitted w' w'')) = 1 \<and>
             length (filter is_rate_limit_warn (emitted w' w'')) = 0 \<and>
             length (spawned w'') = Suc (length (spawned w'))"
    if late: "Min (set (restart_times s')) + 60 < clock w' (Suc (reads w'))"
  proof -
    let ?s0 = "s'\<lparr>proc := process_exits c5 (proc s')\<rparr>"
    have ne: "restart_times s' \<noteq> []"
      using four(5) by auto
    from process_exits_crashed [OF s'(2,3) assms(10)]
    obtain c' where c': "c' \<noteq> 0" "exit_code (proc ?s0) = Some c'"
      by auto
    obtain r s'' w'' where tick: "tick_supervisor ?s0 w' = (r, s'', w'')"
      by (cases "tick_supervisor ?s0 w'") auto
    have pol: "restart_policy (cfg ?s0) \<noteq> ''never''"
      using assms(2) s'(1) by simp
    have k0: "kept ?s0 w' = kept s' w'"
      by (simp add: kept_def)
    have room: "int (length (kept ?s0 w')) < max_restart_per_minute (cfg ?s0)"
      using min_kept_pruned(2) [OF ne late] four(5) assms(1) s'(1) by (simp add: k0)
    from tick_crashed_shape [OF c'(2) c'(1) pol tick] room min_kept_pruned(1) [OF ne late]
    show ?thesis
      by (simp add: tick k0)
  qed
  from four fifth show ?thesis
    by blast
qed

lemma example_run:
  "reads (snd (crash_ticks [1, 1, 1, 1] example_limited example_jump_world)) = 20"
  "restart_times (fst (crash_ticks [1, 1, 1, 1] example_limited example_jump_world))
     = [1004, 1009, 1014]"
  "clock (snd (crash_ticks [1, 1, 1, 1] example_limited example_jump_world))
     = (\<lambda>n. if n < 20 then 1000 + real n else 2000 + real n)"
  by (simp_all add: example_limited_def example_jump_world_def example_crashed_eq
      example_crashed_world_eq tick_crashed start_not_running is_running_def exit_code_def
      process_exits_def kept_def example_cfg_def)


theorem rate_limit_window_witness:
  "max_restart_per_minute (cfg example_limited) = 3 \<and>
   restart_policy (cfg example_limited) \<noteq> ''never'' \<and>
   proc example_limited \<noteq> None \<and> exit_code (proc example_limited) \<noteq> Some 0 \<and>
   restart_times example_limited = [] \<and>
   reads example_jump_world = 2 \<and>
   reads (snd (crash_ticks [1, 1, 1, 1] example_limited example_jump_world)) = 20 \<and>
   length (filter is_auto_restart_start
     (emitted example_jump_world
        (snd (crash_ticks [1, 1, 1, 1] example_limited example_jump_world)))) = 3 \<and>
   length (filter is_rate_limit_warn
     (emitted example_jump_world
        (snd (crash_ticks [1, 1, 1, 1] example_limited example_jump_world)))) = 1 \<and>
   restart_times (fst (crash_ticks [1, 1, 1, 1] example_limited example_jump_world))
     = [1004, 1009, 1014] \<and>
   Min (set (restart_times (fst (crash_ticks [1, 1, 1, 1] example_limited example_jump_world)))) + 60
     < clock (snd (crash_ticks [1, 1, 1, 1] example_limited example_jump_world))
         (Suc (reads (snd (crash_ticks [1, 1, 1, 1] example_limited example_jump_world)))) \<and>
   length (filter is_auto_restart_start
     (emitted (snd (crash_ticks [1, 1, 1, 1] example_limited example_jump_world))
        (snd (snd (tick_supervisor
           ((fst (crash_ticks [1, 1, 1, 1] example_limited example_jump_world))
              \<lparr>proc := process_exits 1
                 (proc (fst (crash_ticks [1, 1, 1, 1] example_limited example_jump_world)))\<rparr>)
           (snd (crash_ticks [1, 1, 1, 1] example_limited example_jump_world))))))) = 1"
proof -
  let ?R = "crash_ticks [1, 1, 1, 1] example_limited example_jump_world"
  have h: "max_restart_per_minute (cfg example_limited) = 3"
      "restart_policy (cfg example_limited) \<noteq> ''never''"
      "proc example_limited \<noteq> None" "exit_code (proc example_limited) \<noteq> Some 0"
    by (simp_all add: example_limited_def example_crashed_eq example_cfg_def exit_code_def)
  have e: "restart_times example_limited = []"
    by (simp add: example_limited_def example_crashed_eq)
  then have stale: "\<forall>t \<in> set (restart_times example_limited). t < 1000 - 60"
    by simp
  have nz: "(1::int) \<noteq> 0"
    by simp
  have r: "?R = (fst ?R, snd ?R)"
    by simp
  have w0: "reads example_jump_world = 2"
      "clock example_jump_world = (\<lambda>n. if n < 20 then 1000 + real n else 2000 + real n)"
    by (simp_all add: example_jump_world_def example_crashed_world_eq)
  have win: "\<forall>n. reads example_jump_world \<le> n \<and> n < reads (snd ?R) \<longrightarrow>
               1000 \<le> clock example_jump_world n \<and> clock example_jump_world n \<le> 1000 + 60"
    by (simp add: example_run(1) w0 del: crash_ticks.simps)
  have late: "Min (set (restart_times (fst ?R))) + 60 < clock (snd ?R) (Suc (reads (snd ?R)))"
    by (simp add: example_run del: crash_ticks.simps)
  from rate_limit_window [OF h stale nz nz nz nz nz r win]
  show ?thesis
    using h e w0(1) late example_run(1,2) by (simp add: case_prod_beta del: crash_ticks.simps)
qed

end
